theory Spec2Isabelle
  imports Complex_Main "HOL-Library.Word"
begin

section \<open>Common Python values\<close>

text \<open>
  Exceptions are values. Only the exception classes that the modelled code can meet are
  listed; \<open>OtherException\<close> stands for any other subclass of Python's \<open>Exception\<close>
  (for instance one raised by a collaborator or by a callback).
\<close>

datatype py_error =
    ValueError
  | TypeError
  | AttributeError
  | BinasciiError
  | AudioopError
  | OtherException string

type_synonym byte = "8 word"
type_synonym int16 = "16 word"

section \<open>Ambient mixer (app/handler/ambient_mixer.py)\<close>

subsection \<open>numpy primitives used by the mixer\<close>

text \<open>
  The float arithmetic of numpy is a parameter of the model: \<open>'f\<close> is the type of the
  floating-point values (the two zeros are one value: the sign of a zero does not survive
  \<open>astype(np.int16)\<close>), and the record holds the operations the mixer applies to them.
  Nothing about rounding is assumed anywhere; a theorem that needs a law of float
  arithmetic (\<open>float_zero_laws\<close>, \<open>float_clip_laws\<close> below) states it as a hypothesis.
\<close>

record 'f np_float =
  f_zero :: "'f"                         \<comment> \<open>the element of \<open>np.zeros(..., dtype=np.float32)\<close>\<close>
  f_lit :: "rat \<Rightarrow> 'f"                  \<comment> \<open>a Python float literal such as \<open>0.08\<close>\<close>
  f_of_int16 :: "int16 \<Rightarrow> 'f"           \<comment> \<open>\<open>astype(np.float32)\<close> on an int16 sample\<close>
  f_add :: "'f \<Rightarrow> 'f \<Rightarrow> 'f"
  f_mul :: "'f \<Rightarrow> 'f \<Rightarrow> 'f"
  f_div :: "'f \<Rightarrow> 'f \<Rightarrow> 'f"
  f_tanh :: "'f \<Rightarrow> 'f"                  \<comment> \<open>\<open>np.tanh\<close>\<close>
  f_to_int16 :: "'f \<Rightarrow> int16"           \<comment> \<open>\<open>astype(np.int16)\<close> on a float sample\<close>

text \<open>
  The two facts of IEEE arithmetic on float values that the comparison of
  \<open>get_ambient_only_chunk\<close> with \<open>mix_tts_with_ambient\<close> rests on: the int16 sample 0
  converts to 0.0 and \<open>0.0 / 32768.0\<close> is 0.0, and adding 0.0 to a value returns that value.
\<close>

definition float_zero_laws :: "'f np_float \<Rightarrow> bool" where
  "float_zero_laws F \<longleftrightarrow>
     f_div F (f_of_int16 F 0) (f_lit F 32768) = f_zero F \<and>
     (\<forall>y. f_add F (f_zero F) y = y)"

text \<open>Exact real arithmetic is one instance of the operations.\<close>

definition exact_float :: "real np_float" where
  "exact_float =
     \<lparr> f_zero = 0, f_lit = of_rat, f_of_int16 = (\<lambda>w. real_of_int (sint w)),
       f_add = (+), f_mul = (*), f_div = (/), f_tanh = tanh,
       f_to_int16 = (\<lambda>x. word_of_int (if x < 0 then \<lceil>x\<rceil> else \<lfloor>x\<rfloor>)) \<rparr>"



text \<open>
  \<open>np.zeros(n, dtype=np.float32)\<close>: a negative dimension raises \<open>ValueError\<close>.
\<close>

definition np_zeros :: "'f np_float \<Rightarrow> int \<Rightarrow> py_error + 'f list" where
  "np_zeros F n = (if n < 0 then Inl ValueError else Inr (replicate (nat n) (f_zero F)))"

text \<open>
  Python's slice bounds for \<open>a[i:j]\<close> on a sequence of length \<open>n\<close>: a negative bound counts
  from the end, and both bounds are clamped to \<open>[0, n]\<close>.
\<close>

definition slice_bound :: "nat \<Rightarrow> int \<Rightarrow> nat" where
  "slice_bound n k = (if k < 0 then nat (max (k + int n) 0) else min (nat k) n)"

definition py_slice :: "'a list \<Rightarrow> int \<Rightarrow> int \<Rightarrow> 'a list" where
  "py_slice xs i j =
     (let start = slice_bound (length xs) i; stop = slice_bound (length xs) j
      in take (stop - start) (drop start xs))"

text \<open>
  \<open>chunk[i:j] = src\<close> on one-dimensional arrays: the source must have the length of the
  target slice, or length 1 (it is then broadcast); anything else raises \<open>ValueError\<close>.
\<close>

definition np_slice_assign :: "'a list \<Rightarrow> int \<Rightarrow> int \<Rightarrow> 'a list \<Rightarrow> py_error + 'a list" where
  "np_slice_assign chunk i j src =
     (let start = slice_bound (length chunk) i; stop = slice_bound (length chunk) j;
          m = stop - start
      in if length src = m then Inr (take start chunk @ src @ drop (start + m) chunk)
         else if length src = 1 then
           Inr (take start chunk @ replicate m (hd src) @ drop (start + m) chunk)
         else Inl ValueError)"

text \<open>
  \<open>np.frombuffer(b, dtype=np.int16)\<close>: little-endian 16-bit samples; a buffer whose size is
  not a multiple of the element size raises \<open>ValueError\<close>.
\<close>

fun int16_of_bytes :: "byte list \<Rightarrow> int16 list" where
  "int16_of_bytes (lo # hi # rest) = word_cat hi lo # int16_of_bytes rest"
| "int16_of_bytes _ = []"

definition np_frombuffer_int16 :: "byte list \<Rightarrow> py_error + int16 list" where
  "np_frombuffer_int16 b =
     (if length b mod 2 \<noteq> 0 then Inl ValueError else Inr (int16_of_bytes b))"

text \<open>\<open>tobytes()\<close> of an int16 array: two bytes per sample, low byte first.\<close>

definition int16_tobytes :: "int16 list \<Rightarrow> byte list" where
  "int16_tobytes ws = concat (map (\<lambda>w. [ucast w, ucast (drop_bit 8 w)]) ws)"

subsection \<open>The mixer\<close>

record 'f mixer =
  preset :: string
  noise_buffer :: "'f list option"
  noise_position :: int
  ambient_gain :: "'f"

definition BYTES_PER_SAMPLE :: int where
  "BYTES_PER_SAMPLE = 2"

text \<open>The \<open>PRESETS\<close> table: preset name to the name of its audio file, if any.\<close>

definition PRESETS :: "(string \<times> string option) list" where
  "PRESETS = [(''none'', None), (''office'', Some ''office.wav''),
              (''call_center'', Some ''callcenter.wav'')]"

text \<open>
  \<open>__init__\<close>. Loading the audio file (\<open>_load_noise\<close>: file access, resampling and loudness
  normalisation in float arithmetic) is a parameter: \<open>load_noise preset\<close> is the array it
  returns.
\<close>

definition init_mixer :: "'f np_float \<Rightarrow> (string \<Rightarrow> 'f list) \<Rightarrow> string \<Rightarrow> py_error + 'f mixer" where
  "init_mixer F load_noise p =
     (case map_of PRESETS p of
        None \<Rightarrow> Inl ValueError
      | Some file \<Rightarrow>
          Inr \<lparr> preset = p,
                noise_buffer =
                  (if p \<noteq> ''none'' \<and> file \<noteq> None \<and> file \<noteq> Some [] then Some (load_noise p)
                   else None),
                noise_position = 0,
                ambient_gain = f_lit F (8 / 100) \<rparr>)"

text \<open>
  The \<open>while remaining > 0\<close> loop of \<open>_get_noise_chunk\<close>. The result is the chunk (or the
  exception of the slice assignment) with the final \<open>_noise_position\<close>; \<open>None\<close> means that
  the loop does not return.
\<close>

partial_function (option) noise_loop ::
  "'f list \<Rightarrow> int \<Rightarrow> 'f list \<Rightarrow> int \<Rightarrow> int \<Rightarrow> ((py_error + 'f list) \<times> int) option" where
  "noise_loop buf pos chunk offset remaining =
     (if remaining > 0 then
        (let available = int (length buf) - pos;
             to_copy = min available remaining
         in case np_slice_assign chunk offset (offset + to_copy)
                   (py_slice buf pos (pos + to_copy)) of
              Inl e \<Rightarrow> Some (Inl e, pos)
            | Inr chunk' \<Rightarrow>
                noise_loop buf
                  (if pos + to_copy \<ge> int (length buf) then 0 else pos + to_copy)
                  chunk' (offset + to_copy) (remaining - to_copy))
      else Some (Inr chunk, pos))"

definition get_noise_chunk ::
  "'f np_float \<Rightarrow> 'f mixer \<Rightarrow> int \<Rightarrow> ((py_error + 'f list) \<times> 'f mixer) option" where
  "get_noise_chunk F m num_samples =
     (case noise_buffer m of
        None \<Rightarrow> Some (np_zeros F num_samples, m)
      | Some buf \<Rightarrow>
          (case np_zeros F num_samples of
             Inl e \<Rightarrow> Some (Inl e, m)
           | Inr chunk \<Rightarrow>
               (case noise_loop buf (noise_position m) chunk 0 num_samples of
                  None \<Rightarrow> None
                | Some (r, pos') \<Rightarrow> Some (r, m\<lparr>noise_position := pos'\<rparr>))))"

definition soft_clip :: "'f np_float \<Rightarrow> 'f list \<Rightarrow> 'f \<Rightarrow> 'f list" where
  "soft_clip F audio threshold =
     map (\<lambda>x. f_mul F (f_tanh F (f_div F x threshold)) threshold) audio"

definition soft_clip_default :: "'f np_float \<Rightarrow> 'f list \<Rightarrow> 'f list" where
  "soft_clip_default F audio = soft_clip F audio (f_lit F (95 / 100))"

definition is_enabled :: "'f mixer \<Rightarrow> bool" where
  "is_enabled m \<longleftrightarrow> preset m \<noteq> ''none'' \<and> noise_buffer m \<noteq> None"

text \<open>\<open>(x * 32767).astype(np.int16).tobytes()\<close>\<close>

definition to_pcm16_bytes :: "'f np_float \<Rightarrow> 'f list \<Rightarrow> byte list" where
  "to_pcm16_bytes F xs =
     int16_tobytes (map (\<lambda>x. f_to_int16 F (f_mul F x (f_lit F 32767))) xs)"

definition get_ambient_only_chunk ::
  "'f np_float \<Rightarrow> 'f mixer \<Rightarrow> int \<Rightarrow> ((py_error + byte list) \<times> 'f mixer) option" where
  "get_ambient_only_chunk F m chunk_size_bytes =
     (if \<not> is_enabled m then Some (Inr (replicate (nat chunk_size_bytes) 0), m)
      else
        (let num_samples = chunk_size_bytes div BYTES_PER_SAMPLE
         in case get_noise_chunk F m num_samples of
              None \<Rightarrow> None
            | Some (Inl e, m') \<Rightarrow> Some (Inl e, m')
            | Some (Inr noise, m') \<Rightarrow>
                (let output = map (\<lambda>x. f_mul F x (ambient_gain m')) noise;
                     output = soft_clip_default F output
                 in Some (Inr (to_pcm16_bytes F output), m'))))"

text \<open>
  \<open>tts + scaled_noise\<close> adds two arrays elementwise. The noise chunk has \<open>len(tts)\<close>
  elements whenever it is returned (\<open>noise_chunk_length\<close> below), so no broadcasting occurs.
\<close>

definition mix_tts_with_ambient ::
  "'f np_float \<Rightarrow> 'f mixer \<Rightarrow> byte list \<Rightarrow> ((py_error + byte list) \<times> 'f mixer) option" where
  "mix_tts_with_ambient F m tts_bytes =
     (if \<not> is_enabled m then Some (Inr tts_bytes, m)
      else
        (case np_frombuffer_int16 tts_bytes of
           Inl e \<Rightarrow> Some (Inl e, m)
         | Inr samples \<Rightarrow>
             (let tts = map (\<lambda>s. f_div F (f_of_int16 F s) (f_lit F 32768)) samples
              in case get_noise_chunk F m (int (length tts)) of
                   None \<Rightarrow> None
                 | Some (Inl e, m') \<Rightarrow> Some (Inl e, m')
                 | Some (Inr noise, m') \<Rightarrow>
                     (let scaled_noise = map (\<lambda>x. f_mul F x (ambient_gain m')) noise;
                          mixed = map2 (f_add F) tts scaled_noise;
                          mixed = soft_clip_default F mixed
                      in Some (Inr (to_pcm16_bytes F mixed), m')))))"

definition reset :: "'f mixer \<Rightarrow> 'f mixer" where
  "reset m = m\<lparr>noise_position := 0\<rparr>"

section \<open>Library functions called by the handlers\<close>

subsection \<open>\<open>base64.b64decode\<close>\<close>

text \<open>
  \<open>base64.b64decode(s)\<close> with its default \<open>validate=False\<close>, transcribed from CPython 3.11
  (\<open>Lib/base64.py\<close> and \<open>binascii.a2b_base64\<close> in \<open>Modules/binascii.c\<close>, non-strict mode):
  a \<open>str\<close> argument must be ASCII (\<open>ValueError\<close> otherwise); characters outside the
  alphabet are skipped; a pad character ends the input once it completes a quad; leftover
  characters of an incomplete quad raise \<open>binascii.Error\<close>.
\<close>

definition b64_value :: "char \<Rightarrow> byte option" where
  "b64_value c =
     (let n = (of_char c :: nat)
      in if 65 \<le> n \<and> n \<le> 90 then Some (of_nat (n - 65))
         else if 97 \<le> n \<and> n \<le> 122 then Some (of_nat (n - 71))
         else if 48 \<le> n \<and> n \<le> 57 then Some (of_nat (n + 4))
         else if n = 43 then Some 62
         else if n = 47 then Some 63
         else None)"

fun a2b_base64 :: "nat \<Rightarrow> byte \<Rightarrow> nat \<Rightarrow> byte list \<Rightarrow> string \<Rightarrow> py_error + byte list" where
  "a2b_base64 quad_pos leftchar pads out [] =
     (if quad_pos \<noteq> 0 then Inl BinasciiError else Inr out)"
| "a2b_base64 quad_pos leftchar pads out (c # cs) =
     (if c = CHR ''='' then
        (if quad_pos \<ge> 2 \<and> quad_pos + (pads + 1) \<ge> 4 then Inr out
         else a2b_base64 quad_pos leftchar (if quad_pos \<ge> 2 then pads + 1 else pads) out cs)
      else
        (case b64_value c of
           None \<Rightarrow> a2b_base64 quad_pos leftchar pads out cs
         | Some v \<Rightarrow>
             (if quad_pos = 0 then a2b_base64 1 v 0 out cs
              else if quad_pos = 1 then
                a2b_base64 2 (and v 15) 0 (out @ [or (push_bit 2 leftchar) (drop_bit 4 v)]) cs
              else if quad_pos = 2 then
                a2b_base64 3 (and v 3) 0 (out @ [or (push_bit 4 leftchar) (drop_bit 2 v)]) cs
              else a2b_base64 0 0 0 (out @ [or (push_bit 6 leftchar) v]) cs)))"

definition b64decode :: "string \<Rightarrow> py_error + byte list" where
  "b64decode s =
     (if \<exists>c \<in> set s. (of_char c :: nat) \<ge> 128 then Inl ValueError
      else a2b_base64 0 0 0 [] s)"

subsection \<open>\<open>audioop.ulaw2lin\<close> and \<open>audioop.ratecv\<close>\<close>

text \<open>
  Both are transcribed from CPython 3.11 (\<open>Modules/audioop.c\<close>), for the arguments the
  handler passes: sample width 2, one channel, no previous state, default filter weights.

  \<open>st_ulaw2linear16\<close> is the G.711 decoding that the table \<open>_st_ulaw2linear16\<close> of the C file
  tabulates.
\<close>

definition st_ulaw2linear16 :: "byte \<Rightarrow> int" where
  "st_ulaw2linear16 u_val =
     (let u = not u_val;
          t = (uint (and u 15) * 8 + 132) * 2 ^ unat (drop_bit 4 (and u 112))
      in if and u 128 \<noteq> 0 then 132 - t else t - 132)"

text \<open>\<open>audioop.ulaw2lin(fragment, 2)\<close>: one 16-bit sample per input byte; it cannot fail.\<close>

definition audioop_ulaw2lin :: "byte list \<Rightarrow> byte list" where
  "audioop_ulaw2lin fragment =
     int16_tobytes (map (\<lambda>b. word_of_int (st_ulaw2linear16 b)) fragment)"

text \<open>C's integer division, truncating towards zero.\<close>

definition c_div :: "int \<Rightarrow> int \<Rightarrow> int" where
  "c_div a b = sgn a * sgn b * (\<bar>a\<bar> div \<bar>b\<bar>)"

text \<open>
  The conversion loop of \<open>ratecv\<close>, on 32-bit sample values:
  \<^verbatim>\<open>for (;;) { while (d < 0) { if (len == 0) return; read a frame; d += outrate; }
             while (d >= 0) { write a frame; d -= inrate; } }\<close>
  One step of the model is one iteration of whichever inner loop the sign of \<open>d\<close> selects.
  The output sample is computed in C as
  \<open>(int)(((double)prev * d + (double)cur * (outrate - d)) / (double)outrate)\<close>; for the rates
  of this program every intermediate value is an integer far below \<open>2^53\<close>, so the double
  arithmetic is exact and the cast truncates towards zero.
  The result is the list of output samples with the final state \<open>(d, prev, cur)\<close>;
  \<open>None\<close> means that the loop does not return.
\<close>

partial_function (option) ratecv_loop ::
  "int \<Rightarrow> int \<Rightarrow> int \<Rightarrow> int \<Rightarrow> int \<Rightarrow> int list \<Rightarrow> int list
     \<Rightarrow> (int list \<times> int \<times> int \<times> int) option" where
  "ratecv_loop inrate outrate d prev_i cur_i input out =
     (if d < 0 then
        (case input of
           [] \<Rightarrow> Some (out, d, prev_i, cur_i)
         | s # rest \<Rightarrow> ratecv_loop inrate outrate (d + outrate) cur_i s rest out)
      else
        ratecv_loop inrate outrate (d - inrate) prev_i cur_i input
          (out @ [c_div (prev_i * d + cur_i * (outrate - d)) outrate]))"

text \<open>
  \<open>audioop.ratecv(fragment, 2, 1, inrate, outrate, None)\<close>. A 16-bit sample is read as the
  32-bit value \<open>s * 2^16\<close> and written back as \<open>v >> 16\<close>.
\<close>

definition audioop_ratecv ::
  "byte list \<Rightarrow> int \<Rightarrow> int \<Rightarrow> (py_error + byte list \<times> (int \<times> int \<times> int)) option" where
  "audioop_ratecv fragment inrate outrate =
     (if inrate \<le> 0 \<or> outrate \<le> 0 then Some (Inl AudioopError)
      else if length fragment mod 2 \<noteq> 0 then Some (Inl AudioopError)
      else
        (let g = gcd inrate outrate;
             inrate' = inrate div g;
             outrate' = outrate div g;
             input = map (\<lambda>w. sint w * 65536) (int16_of_bytes fragment)
         in case ratecv_loop inrate' outrate' (- outrate') 0 0 input [] of
              None \<Rightarrow> None
            | Some (out, st) \<Rightarrow>
                Some (Inr (int16_tobytes (map (\<lambda>v. word_of_int (v div 65536)) out), st))))"

section \<open>Twilio media handler (app/handler/twilio_handler.py)\<close>

definition SOURCE_SAMPLE_RATE_HZ :: int where
  "SOURCE_SAMPLE_RATE_HZ = 8000"

definition TARGET_SAMPLE_RATE_HZ :: int where
  "TARGET_SAMPLE_RATE_HZ = 24000"

text \<open>
  \<open>mulaw_b64_to_pcm16\<close>. An exception of a library call propagates (\<open>Inl\<close>); \<open>None\<close> means
  that the call does not return.
\<close>

definition mulaw_b64_to_pcm16 :: "string \<Rightarrow> int \<Rightarrow> (py_error + byte list) option" where
  "mulaw_b64_to_pcm16 mulaw_b64 target_sample_rate =
     (case b64decode mulaw_b64 of
        Inl e \<Rightarrow> Some (Inl e)
      | Inr mulaw_bytes \<Rightarrow>
          (let pcm16 = audioop_ulaw2lin mulaw_bytes
           in if target_sample_rate \<noteq> 0 \<and> target_sample_rate \<noteq> SOURCE_SAMPLE_RATE_HZ then
                (case audioop_ratecv pcm16 SOURCE_SAMPLE_RATE_HZ target_sample_rate of
                   None \<Rightarrow> None
                 | Some (Inl e) \<Rightarrow> Some (Inl e)
                 | Some (Inr (pcm16', _)) \<Rightarrow> Some (Inr pcm16'))
              else Some (Inr pcm16)))"

section \<open>Voice Live relay (app/handler/voice_live_handler.py)\<close>

subsection \<open>Decoded JSON messages\<close>

text \<open>
  The value that \<open>json.loads\<close> returns. An object is an association list read with
  \<open>map_of\<close>. Finite floats are rationals.
\<close>

datatype json =
    JNull
  | JBool bool
  | JInt int
  | JFloat rat
  | JStr string
  | JArr "json list"
  | JObj "(string \<times> json) list"

text \<open>Python's truth value of a decoded JSON value (\<open>if x:\<close>).\<close>

fun truthy :: "json \<Rightarrow> bool" where
  "truthy JNull = False"
| "truthy (JBool b) = b"
| "truthy (JInt i) = (i \<noteq> 0)"
| "truthy (JFloat r) = (r \<noteq> 0)"
| "truthy (JStr s) = (s \<noteq> [])"
| "truthy (JArr xs) = (xs \<noteq> [])"
| "truthy (JObj kvs) = (kvs \<noteq> [])"

text \<open>
  \<open>x.get(key, default)\<close>: only a dict has the method; on any other value the attribute
  lookup raises \<open>AttributeError\<close>.
\<close>

fun py_get :: "json \<Rightarrow> string \<Rightarrow> json \<Rightarrow> py_error + json" where
  "py_get (JObj kvs) key dflt = Inr (case map_of kvs key of None \<Rightarrow> dflt | Some v \<Rightarrow> v)"
| "py_get _ key dflt = Inl AttributeError"

subsection \<open>Handler state and stream context\<close>

text \<open>
  A registered callback is a function from its argument to the exception it raises, if
  any. \<open>transcription_store\<close> and \<open>sms_queue\<close> record whether the collaborator is present.
\<close>

record handler =
  transcription_store :: bool
  sms_queue :: bool
  on_user_transcript :: "(json \<Rightarrow> py_error option) option"
  on_ai_transcript :: "(json \<Rightarrow> py_error option) option"
  on_audio_chunk :: "(byte list \<Rightarrow> py_error option) option"
  on_audio_stop :: "(unit \<Rightarrow> py_error option) option"
  call_sid :: "string option"
  stream_sid :: "string option"
  recording_sid :: "string option"
  attempt :: "int option"

text \<open>Truth value of an \<open>Optional[str]\<close>: \<open>None\<close> and the empty string are false.\<close>

definition truthy_str :: "string option \<Rightarrow> bool" where
  "truthy_str s = (case s of None \<Rightarrow> False | Some t \<Rightarrow> t \<noteq> [])"

text \<open>
  The \<open>attempt\<close> argument: \<open>AttemptInt i\<close> is a value on which \<open>int(...)\<close> returns \<open>i\<close>,
  \<open>AttemptInvalid\<close> one on which it raises \<open>TypeError\<close> or \<open>ValueError\<close>.
\<close>

datatype attempt_arg = AttemptInt int | AttemptInvalid

definition update_stream_context ::
  "handler \<Rightarrow> string option \<Rightarrow> string option \<Rightarrow> string option \<Rightarrow> attempt_arg option \<Rightarrow> handler" where
  "update_stream_context h call_sid' stream_sid' recording_sid' attempt' =
     (let h1 = (if truthy_str call_sid' then h\<lparr>call_sid := call_sid'\<rparr> else h);
          h2 = (if truthy_str stream_sid' then h1\<lparr>stream_sid := stream_sid'\<rparr> else h1);
          h3 = (if truthy_str recording_sid' then h2\<lparr>recording_sid := recording_sid'\<rparr> else h2)
      in case attempt' of
           None \<Rightarrow> h3
         | Some (AttemptInt i) \<Rightarrow> h3\<lparr>attempt := Some i\<rparr>
         | Some AttemptInvalid \<Rightarrow> h3)"

text \<open>One call of \<open>update_stream_context\<close> as data, and a sequence of calls in order.\<close>

record context_update =
  arg_call_sid :: "string option"
  arg_stream_sid :: "string option"
  arg_recording_sid :: "string option"
  arg_attempt :: "attempt_arg option"

definition apply_update :: "handler \<Rightarrow> context_update \<Rightarrow> handler" where
  "apply_update h u =
     update_stream_context h (arg_call_sid u) (arg_stream_sid u) (arg_recording_sid u)
       (arg_attempt u)"

definition apply_updates :: "handler \<Rightarrow> context_update list \<Rightarrow> handler" where
  "apply_updates h us = foldl apply_update h us"

subsection \<open>Events emitted to the registered callbacks\<close>

datatype outbound_event =
    UserTranscript json
  | AiTranscript json
  | AudioChunk "byte list"
  | AudioStop

definition emit_user_transcript :: "handler \<Rightarrow> json \<Rightarrow> outbound_event list \<times> py_error option" where
  "emit_user_transcript h text =
     (case on_user_transcript h of None \<Rightarrow> ([], None)
      | Some cb \<Rightarrow> ([UserTranscript text], cb text))"

definition emit_ai_transcript :: "handler \<Rightarrow> json \<Rightarrow> outbound_event list \<times> py_error option" where
  "emit_ai_transcript h text =
     (case on_ai_transcript h of None \<Rightarrow> ([], None)
      | Some cb \<Rightarrow> ([AiTranscript text], cb text))"

definition emit_audio_chunk :: "handler \<Rightarrow> byte list \<Rightarrow> outbound_event list \<times> py_error option" where
  "emit_audio_chunk h chunk =
     (case on_audio_chunk h of None \<Rightarrow> ([], None)
      | Some cb \<Rightarrow> ([AudioChunk chunk], cb chunk))"

definition emit_stop :: "handler \<Rightarrow> outbound_event list \<times> py_error option" where
  "emit_stop h =
     (case on_audio_stop h of None \<Rightarrow> ([], None)
      | Some cb \<Rightarrow> ([AudioStop], cb ()))"

subsection \<open>Transcript persistence task\<close>

text \<open>
  \<open>_extract_confidence\<close>. Python's \<open>float(...)\<close> is a parameter: \<open>py_float v\<close> is the float or
  the exception raised. \<open>TypeError\<close> and \<open>ValueError\<close> are caught; any other exception
  propagates.
\<close>

definition float_or_none :: "(json \<Rightarrow> py_error + 'c) \<Rightarrow> json \<Rightarrow> py_error + 'c option" where
  "float_or_none py_float v =
     (case py_float v of
        Inr x \<Rightarrow> Inr (Some x)
      | Inl e \<Rightarrow> (if e = TypeError \<or> e = ValueError then Inr None else Inl e))"

definition extract_confidence :: "(json \<Rightarrow> py_error + 'c) \<Rightarrow> json \<Rightarrow> py_error + 'c option" where
  "extract_confidence py_float event =
     (case py_get event ''confidence'' JNull of
        Inl e \<Rightarrow> Inl e
      | Inr confidence \<Rightarrow>
          (if confidence \<noteq> JNull then float_or_none py_float confidence
           else
             (case py_get event ''alternatives'' JNull of
                Inl e \<Rightarrow> Inl e
              | Inr (JArr (JObj kvs # _)) \<Rightarrow>
                  (case map_of kvs ''confidence'' of
                     None \<Rightarrow> Inr None
                   | Some JNull \<Rightarrow> Inr None
                   | Some v \<Rightarrow> float_or_none py_float v)
              | Inr _ \<Rightarrow> Inr None)))"

text \<open>The closure that \<open>_schedule_transcript_persist\<close> hands to \<open>asyncio.create_task\<close>.\<close>

record 'c persist_task =
  task_transcript :: json
  task_confidence :: "'c option"

text \<open>
  \<open>_schedule_transcript_persist\<close>: the exception of \<open>_extract_confidence\<close> if it propagates,
  else the task created, if any.
\<close>

definition schedule_transcript_persist ::
  "(json \<Rightarrow> py_error + 'c) \<Rightarrow> handler \<Rightarrow> json \<Rightarrow> json \<Rightarrow> py_error + 'c persist_task option" where
  "schedule_transcript_persist py_float h transcript event =
     (if \<not> transcription_store h \<or> \<not> truthy_str (call_sid h) \<or> \<not> truthy_str (recording_sid h)
      then Inr None
      else if attempt h = None then Inr None
      else
        (case extract_confidence py_float event of
           Inl e \<Rightarrow> Inl e
         | Inr confidence \<Rightarrow>
             Inr (Some \<lparr> task_transcript = transcript, task_confidence = confidence \<rparr>)))"

text \<open>
  What the collaborators answer when the task calls them: a value, or the exception
  (a subclass of \<open>Exception\<close>) they raise. Each is called at most once per task.
\<close>

record collaborators =
  store_transcript_result :: "py_error + string"
  build_sms_candidate_result :: "py_error + json"
  enqueue_result :: "py_error option"
  mark_sms_enqueued_result :: "py_error option"

text \<open>What the task does, in order: calls to the collaborators and logged exceptions.\<close>

datatype 'c persist_action =
    StoreTranscript string string "int option" json "'c option"
  | BuildSmsCandidate "string option" "string option" "int option"
  | Enqueue json
  | MarkSmsEnqueued "string option" "string option" "int option"
  | LogException string

text \<open>\<open>s or ""\<close> on an \<open>Optional[str]\<close>.\<close>

definition or_empty :: "string option \<Rightarrow> string" where
  "or_empty s = (case s of None \<Rightarrow> [] | Some t \<Rightarrow> t)"

text \<open>
  The inner \<open>try\<close> of \<open>persist\<close>: enqueue the candidate and mark it; \<open>except Exception\<close> logs
  and swallows the exception.
\<close>

definition enqueue_candidate :: "handler \<Rightarrow> collaborators \<Rightarrow> json \<Rightarrow> 'c persist_action list" where
  "enqueue_candidate h co candidate =
     (case enqueue_result co of
        Some e \<Rightarrow> [Enqueue candidate, LogException ''[VoiceLive] Failed to enqueue SMS delivery job'']
      | None \<Rightarrow>
          (case mark_sms_enqueued_result co of
             Some e \<Rightarrow>
               [Enqueue candidate, MarkSmsEnqueued (call_sid h) (recording_sid h) (attempt h),
                LogException ''[VoiceLive] Failed to enqueue SMS delivery job'']
           | None \<Rightarrow>
               [Enqueue candidate, MarkSmsEnqueued (call_sid h) (recording_sid h) (attempt h)]))"

text \<open>
  The coroutine \<open>persist\<close>, run in the handler state \<open>h\<close> of the moment the task executes.
  The result is the list of actions and the exception that escapes the coroutine, if any.
\<close>

definition persist ::
  "handler \<Rightarrow> collaborators \<Rightarrow> 'c persist_task \<Rightarrow> 'c persist_action list \<times> py_error option" where
  "persist h co task =
     (let failed = LogException ''[VoiceLive] Failed to persist voicemail transcript''
      in if \<not> transcription_store h then ([failed], None)
         else
           (let store = StoreTranscript (or_empty (call_sid h)) (or_empty (recording_sid h))
                          (attempt h) (task_transcript task) (task_confidence task)
            in case store_transcript_result co of
                 Inl e \<Rightarrow> ([store, failed], None)
               | Inr blob_url \<Rightarrow>
                   (if sms_queue h then
                      (let build = BuildSmsCandidate (call_sid h) (recording_sid h) (attempt h)
                       in case build_sms_candidate_result co of
                            Inl e \<Rightarrow> ([store, build, failed], None)
                          | Inr candidate \<Rightarrow>
                              (if truthy candidate
                               then ([store, build] @ enqueue_candidate h co candidate, None)
                               else ([store, build], None)))
                    else ([store], None))))"

text \<open>
  Scheduling in state \<open>h\<close> followed by the execution of the task, if one was created, in
  the later state \<open>h'\<close>.
\<close>

definition schedule_and_run ::
  "(json \<Rightarrow> py_error + 'c) \<Rightarrow> handler \<Rightarrow> handler \<Rightarrow> collaborators \<Rightarrow> json \<Rightarrow> json
     \<Rightarrow> 'c persist_action list \<times> py_error option" where
  "schedule_and_run py_float h h' co transcript event =
     (case schedule_transcript_persist py_float h transcript event of
        Inl e \<Rightarrow> ([], Some e)
      | Inr None \<Rightarrow> ([], None)
      | Inr (Some task) \<Rightarrow> persist h' co task)"

subsection \<open>Receive loop\<close>

text \<open>
  The body of \<open>_receiver_loop\<close> for one decoded message: the callbacks invoked in order,
  the persistence task created, if any, and the exception that leaves the body (it ends the
  loop), if any.
\<close>

definition receiver_body ::
  "(json \<Rightarrow> py_error + 'c) \<Rightarrow> handler \<Rightarrow> json
     \<Rightarrow> outbound_event list \<times> 'c persist_task option \<times> py_error option" where
  "receiver_body py_float h event =
     (case py_get event ''type'' JNull of
        Inl e \<Rightarrow> ([], None, Some e)
      | Inr event_type \<Rightarrow>
          if event_type = JStr ''session.created'' then
            (case py_get event ''session'' (JObj []) of
               Inl e \<Rightarrow> ([], None, Some e)
             | Inr session \<Rightarrow>
                 (case py_get session ''id'' JNull of
                    Inl e \<Rightarrow> ([], None, Some e)
                  | Inr _ \<Rightarrow> ([], None, None)))
          else if event_type = JStr ''input_audio_buffer.cleared'' then ([], None, None)
          else if event_type = JStr ''input_audio_buffer.speech_started'' then
            (let (evs, exn) = emit_stop h in (evs, None, exn))
          else if event_type = JStr ''conversation.item.input_audio_transcription.completed'' then
            (case py_get event ''transcript'' JNull of
               Inl e \<Rightarrow> ([], None, Some e)
             | Inr transcript \<Rightarrow>
                 if truthy transcript then
                   (case emit_user_transcript h transcript of
                      (evs, Some e) \<Rightarrow> (evs, None, Some e)
                    | (evs, None) \<Rightarrow>
                        (case schedule_transcript_persist py_float h transcript event of
                           Inl e \<Rightarrow> (evs, None, Some e)
                         | Inr task \<Rightarrow> (evs, task, None)))
                 else ([], None, None))
          else if event_type = JStr ''conversation.item.input_audio_transcription.failed'' then
            (case py_get event ''error'' JNull of
               Inl e \<Rightarrow> ([], None, Some e)
             | Inr _ \<Rightarrow> ([], None, None))
          else if event_type = JStr ''response.audio_transcript.done'' then
            (case py_get event ''transcript'' JNull of
               Inl e \<Rightarrow> ([], None, Some e)
             | Inr transcript \<Rightarrow>
                 if truthy transcript then
                   (let (evs, exn) = emit_ai_transcript h transcript in (evs, None, exn))
                 else ([], None, None))
          else if event_type = JStr ''response.audio.delta'' then
            (case py_get event ''delta'' JNull of
               Inl e \<Rightarrow> ([], None, Some e)
             | Inr delta \<Rightarrow>
                 if truthy delta then
                   (case delta of
                      JStr d \<Rightarrow>
                        (case b64decode d of
                           Inl e \<Rightarrow> ([], None, Some e)
                         | Inr chunk \<Rightarrow>
                             (let (evs, exn) = emit_audio_chunk h chunk in (evs, None, exn)))
                    | _ \<Rightarrow> ([], None, Some TypeError))
                 else ([], None, None))
          else ([], None, None))"

section \<open>Concrete states used in the examples\<close>

text \<open>The handler as \<open>__init__\<close> leaves it: no callback registered, no context known.\<close>

definition init_handler :: "bool \<Rightarrow> bool \<Rightarrow> handler" where
  "init_handler store queue =
     \<lparr> transcription_store = store, sms_queue = queue,
       on_user_transcript = None, on_ai_transcript = None,
       on_audio_chunk = None, on_audio_stop = None,
       call_sid = None, stream_sid = None, recording_sid = None, attempt = None \<rparr>"

text \<open>A handler with an audio callback that returns normally.\<close>

definition listening_handler :: handler where
  "listening_handler = (init_handler False False)\<lparr>on_audio_chunk := Some (\<lambda>_. None)\<rparr>"

text \<open>A handler of a voicemail call whose context is complete.\<close>

definition voicemail_handler :: handler where
  "voicemail_handler =
     (init_handler True True)
       \<lparr>call_sid := Some ''CA1'', stream_sid := Some ''MZ1'',
        recording_sid := Some ''RE1'', attempt := Some 1\<rparr>"

text \<open>An enabled mixer with a three-sample noise buffer, and a disabled one.\<close>

definition office_mixer :: "real mixer" where
  "office_mixer =
     \<lparr> preset = ''office'', noise_buffer = Some [1 / 2, - 1 / 4, 1 / 8],
       noise_position = 1, ambient_gain = 8 / 100 \<rparr>"

definition silent_mixer :: "real mixer" where
  "silent_mixer =
     \<lparr> preset = ''none'', noise_buffer = None, noise_position = 0, ambient_gain = 8 / 100 \<rparr>"

text \<open>A \<open>float(...)\<close> that rejects every value, and the inputs of the examples.\<close>

definition no_float :: "json \<Rightarrow> py_error + unit" where
  "no_float v = Inl TypeError"

definition silence_delta_event :: json where
  "silence_delta_event =
     JObj [(''type'', JStr ''response.audio.delta''), (''delta'', JStr ''AAAAAAAAAAA='')]"

definition empty_delta_event :: json where
  "empty_delta_event =
     JObj [(''type'', JStr ''response.audio.delta''), (''delta'', JStr [])]"

definition missing_delta_event :: json where
  "missing_delta_event = JObj [(''type'', JStr ''response.audio.delta'')]"

definition transcription_event :: json where
  "transcription_event =
     JObj [(''type'', JStr ''conversation.item.input_audio_transcription.completed''),
           (''transcript'', JStr ''hello'')]"

definition sms_candidate :: json where
  "sms_candidate = JObj [(''call_sid'', JStr ''CA1'')]"

definition failing_queue :: collaborators where
  "failing_queue =
     \<lparr> store_transcript_result = Inr ''https://blob/CA1'',
       build_sms_candidate_result = Inr sms_candidate,
       enqueue_result = Some (OtherException ''queue unavailable''),
       mark_sms_enqueued_result = None \<rparr>"

section \<open>Properties of the ambient mixer\<close>

subsection \<open>The noise loop under the cursor invariant\<close>

lemma py_slice_nat:
  "p + t \<le> length xs \<Longrightarrow> py_slice xs (int p) (int p + int t) = take t (drop p xs)"
  by (simp add: py_slice_def slice_bound_def Let_def nat_add_distrib)

lemma np_slice_assign_nat:
  "off + t \<le> length chunk \<Longrightarrow> length src = t \<Longrightarrow>
   np_slice_assign chunk (int off) (int off + int t) src
     = Inr (take off chunk @ src @ drop (off + t) chunk)"
  by (simp add: np_slice_assign_def slice_bound_def Let_def nat_add_distrib)

lemma take_drop_cyclic:
  "p + t \<le> length buf \<Longrightarrow>
   take t (drop p buf) = map (\<lambda>i. buf ! ((p + i) mod length buf)) [0..<t]"
  by (rule nth_equalityI) auto

lemma cyclic_shift:
  assumes "t \<le> r" "buf \<noteq> []"
  shows "map (\<lambda>i. buf ! (((p + t) mod length buf + i) mod length buf)) [0..<r - t]
       = map (\<lambda>i. buf ! ((p + i) mod length buf)) [t..<r]"
proof (rule nth_equalityI)
  show "length (map (\<lambda>i. buf ! (((p + t) mod length buf + i) mod length buf)) [0..<r - t]) =
        length (map (\<lambda>i. buf ! ((p + i) mod length buf)) [t..<r])" by simp
next
  fix i assume "i < length (map (\<lambda>i. buf ! (((p + t) mod length buf + i) mod length buf)) [0..<r - t])"
  then have i: "i < r - t" by simp
  have "((p + t) mod length buf + i) mod length buf = (p + (t + i)) mod length buf"
    by (simp add: mod_add_left_eq add.assoc)
  with i show "map (\<lambda>i. buf ! (((p + t) mod length buf + i) mod length buf)) [0..<r - t] ! i =
        map (\<lambda>i. buf ! ((p + i) mod length buf)) [t..<r] ! i"
    by simp
qed

lemma noise_loop_step:
  assumes "p < length buf" "0 < r" "off + r \<le> length chunk"
  shows "noise_loop buf (int p) chunk (int off) (int r)
       = noise_loop buf (int ((p + min (length buf - p) r) mod length buf))
           (take off chunk @ take (min (length buf - p) r) (drop p buf)
              @ drop (off + min (length buf - p) r) chunk)
           (int (off + min (length buf - p) r)) (int (r - min (length buf - p) r))"
proof -
  define t where "t = min (length buf - p) r"
  have t: "0 < t" "t \<le> r" "p + t \<le> length buf" "off + t \<le> length chunk"
    using assms by (auto simp: t_def)
  have tc: "min (int (length buf) - int p) (int r) = int t"
    using assms by (auto simp: t_def min_def)
  have len: "length (take t (drop p buf)) = t" using t by simp
  have pos: "(if int (length buf) \<le> int p + int t then 0 else int p + int t)
             = int ((p + t) mod length buf)"
  proof (cases "p + t = length buf")
    case True
    then show ?thesis by simp
  next
    case False
    with t have "p + t < length buf" by simp
    then show ?thesis by simp
  qed
  have "noise_loop buf (int p) chunk (int off) (int r)
      = (case np_slice_assign chunk (int off) (int off + int t)
                (py_slice buf (int p) (int p + int t)) of
           Inl e \<Rightarrow> Some (Inl e, int p)
         | Inr chunk' \<Rightarrow>
             noise_loop buf (if int (length buf) \<le> int p + int t then 0 else int p + int t)
               chunk' (int off + int t) (int r - int t))"
    using assms(2) by (subst noise_loop.simps) (simp only: tc Let_def of_nat_0_less_iff if_True)
  also have "\<dots> = noise_loop buf (int ((p + t) mod length buf))
           (take off chunk @ take t (drop p buf) @ drop (off + t) chunk)
           (int off + int t) (int r - int t)"
    by (simp only: py_slice_nat [OF t(3)] np_slice_assign_nat [OF t(4) len] pos sum.case)
  also have "int off + int t = int (off + t)" by simp
  also have "int r - int t = int (r - t)" using t(2) by simp
  finally show ?thesis unfolding t_def .
qed

lemma noise_loop_wraps:
  "p < length buf \<Longrightarrow> off + r = length chunk \<Longrightarrow>
   noise_loop buf (int p) chunk (int off) (int r)
     = Some (Inr (take off chunk @ map (\<lambda>i. buf ! ((p + i) mod length buf)) [0..<r]),
             int ((p + r) mod length buf))"
proof (induction r arbitrary: p off chunk rule: less_induct)
  case (less r)
  show ?case
  proof (cases "r = 0")
    case True
    with less.prems show ?thesis
      by (subst noise_loop.simps) simp
  next
    case False
    define t where "t = min (length buf - p) r"
    define chunk' where
      "chunk' = take off chunk @ take t (drop p buf) @ drop (off + t) chunk"
    from False less.prems have t: "0 < t" "t \<le> r" "p + t \<le> length buf" "off + t \<le> length chunk"
      by (auto simp: t_def)
    have ne: "buf \<noteq> []" using less.prems by auto
    have p': "(p + t) mod length buf < length buf" using ne by simp
    have len': "(off + t) + (r - t) = length chunk'"
      using t less.prems by (simp add: chunk'_def)
    have tk: "take (off + t) chunk' = take off chunk @ take t (drop p buf)"
      using t by (simp add: chunk'_def)
    have "noise_loop buf (int p) chunk (int off) (int r)
        = noise_loop buf (int ((p + t) mod length buf)) chunk' (int (off + t)) (int (r - t))"
      unfolding t_def chunk'_def
      using less.prems False by (intro noise_loop_step) auto
    also have "\<dots> = Some (Inr (take (off + t) chunk' @
                 map (\<lambda>i. buf ! (((p + t) mod length buf + i) mod length buf)) [0..<r - t]),
               int (((p + t) mod length buf + (r - t)) mod length buf))"
      using t by (intro less.IH [OF _ p' len']) simp
    also have "take (off + t) chunk' @
                 map (\<lambda>i. buf ! (((p + t) mod length buf + i) mod length buf)) [0..<r - t]
             = take off chunk @ map (\<lambda>i. buf ! ((p + i) mod length buf)) [0..<r]"
    proof -
      have "[0..<r] = [0..<t] @ [t..<r]"
        using t(2) by (metis le0 upt_add_eq_append le_add_diff_inverse)
      then show ?thesis
        by (simp add: tk take_drop_cyclic [OF t(3)] cyclic_shift [OF t(2) ne])
    qed
    also have "((p + t) mod length buf + (r - t)) mod length buf = (p + r) mod length buf"
    proof -
      have "((p + t) mod length buf + (r - t)) mod length buf = ((p + t) + (r - t)) mod length buf"
        by (rule mod_add_left_eq)
      also have "(p + t) + (r - t) = p + r" using t(2) by simp
      finally show ?thesis .
    qed
    finally show ?thesis .
  qed
qed

subsection \<open>The noise chunk has the requested length\<close>

lemma slice_bound_le: "slice_bound n k \<le> n"
  by (auto simp: slice_bound_def)

lemma np_slice_assign_length:
  "np_slice_assign chunk i j src = Inr chunk' \<Longrightarrow> length chunk' = length chunk"
  using slice_bound_le [of "length chunk" i] slice_bound_le [of "length chunk" j]
  by (auto simp: np_slice_assign_def Let_def split: if_splits)

lemma noise_loop_length_aux:
  assumes "noise_loop (buf0 :: 'a list) pos0 chunk0 offset0 remaining0 = Some y0"
  shows "\<forall>out. fst y0 = Inr out \<longrightarrow> length out = length chunk0"
proof (rule noise_loop.raw_induct
    [where P = "\<lambda>buf pos chunk offset remaining y.
                  \<forall>out. fst y = Inr out \<longrightarrow> length out = length chunk", OF _ assms])
  fix f :: "'a list \<Rightarrow> int \<Rightarrow> 'a list \<Rightarrow> int \<Rightarrow> int \<Rightarrow> ((py_error + 'a list) \<times> int) option"
  fix buf chunk :: "'a list" and pos offset remaining :: int and y :: "(py_error + 'a list) \<times> int"
  let ?t = "min (int (length buf) - pos) remaining"
  let ?r = "np_slice_assign chunk offset (offset + ?t) (py_slice buf pos (pos + ?t))"
  assume IH: "\<And>buf pos (chunk :: 'a list) offset remaining y. f buf pos chunk offset remaining = Some y \<Longrightarrow>
                \<forall>out. fst y = Inr out \<longrightarrow> length out = length chunk"
  assume body: "(if 0 < remaining
      then let available = int (length buf) - pos;
               to_copy = min available remaining
           in case np_slice_assign chunk offset (offset + to_copy)
                    (py_slice buf pos (pos + to_copy)) of
              Inl e \<Rightarrow> Some (Inl e, pos)
              | Inr chunk' \<Rightarrow>
                  f buf
                   (if int (length buf) \<le> pos + to_copy then 0
                    else pos + to_copy)
                   chunk' (offset + to_copy) (remaining - to_copy)
      else Some (Inr chunk, pos)) = Some y"
  show "\<forall>out. fst y = Inr out \<longrightarrow> length out = length chunk"
  proof (cases "0 < remaining")
    case False
    with body have "y = (Inr chunk, pos)" by simp
    then show ?thesis by simp
  next
    case True
    with body have eq:
      "(case ?r of Inl e \<Rightarrow> Some (Inl e, pos)
        | Inr chunk' \<Rightarrow> f buf (if int (length buf) \<le> pos + ?t then 0 else pos + ?t)
             chunk' (offset + ?t) (remaining - ?t)) = Some y"
      by (simp only: Let_def if_True)
    show ?thesis
    proof (cases ?r)
      case (Inl e)
      with eq have "y = (Inl e, pos)" by (simp only: sum.case option.inject)
      then show ?thesis by simp
    next
      case (Inr chunk')
      with eq have
        "f buf (if int (length buf) \<le> pos + ?t then 0 else pos + ?t)
           chunk' (offset + ?t) (remaining - ?t) = Some y"
        by (simp only: sum.case)
      from IH [OF this] have "\<forall>out. fst y = Inr out \<longrightarrow> length out = length chunk'" .
      with np_slice_assign_length [OF Inr] show ?thesis by simp
    qed
  qed
qed

lemma noise_chunk_length:
  assumes "get_noise_chunk F m n = Some (Inr noise, m')"
  shows "int (length noise) = n"
proof (cases "noise_buffer m")
  case None
  with assms show ?thesis
    by (auto simp: get_noise_chunk_def np_zeros_def split: if_splits)
next
  case (Some buf)
  show ?thesis
  proof (cases "n < 0")
    case True
    with assms Some show ?thesis
      by (simp add: get_noise_chunk_def np_zeros_def)
  next
    case False
    with assms Some obtain pos' where
      "noise_loop buf (noise_position m) (replicate (nat n) (f_zero F)) 0 n = Some (Inr noise, pos')"
      by (auto simp: get_noise_chunk_def np_zeros_def split: option.splits)
    from noise_loop_length_aux [OF this] False show ?thesis by simp
  qed
qed

lemma int16_of_bytes_zeros:
  "int16_of_bytes (replicate (2 * k) 0) = replicate k 0"
  by (induction k) simp_all

lemma map2_left_unit:
  assumes "\<And>y. g z y = y" "length ys = k"
  shows "map2 g (replicate k z) ys = ys"
  using assms(2)
proof (induction ys arbitrary: k)
  case Nil
  then show ?case by simp
next
  case (Cons y ys)
  then obtain k' where "k = Suc k'" by (cases k) auto
  with Cons assms(1) show ?case by simp
qed

lemma get_noise_chunk_wraps:
  assumes "noise_buffer m = Some buf" "buf \<noteq> []"
    and "0 \<le> noise_position m" "noise_position m < int (length buf)"
  shows "get_noise_chunk F m (int n)
           = Some (Inr (map (\<lambda>i. buf ! ((nat (noise_position m) + i) mod length buf)) [0..<n]),
                   m\<lparr>noise_position := (noise_position m + int n) mod int (length buf)\<rparr>)"
proof -
  define p where "p = nat (noise_position m)"
  have p: "noise_position m = int p" "p < length buf"
    using assms(3,4) by (simp_all add: p_def)
  have "noise_loop buf (int p) (replicate n (f_zero F)) (int 0) (int n)
          = Some (Inr (take 0 (replicate n (f_zero F))
                        @ map (\<lambda>i. buf ! ((p + i) mod length buf)) [0..<n]),
                  int ((p + n) mod length buf))"
    by (rule noise_loop_wraps [OF p(2)]) simp
  then have loop: "noise_loop buf (noise_position m) (replicate n (f_zero F)) 0 (int n)
          = Some (Inr (map (\<lambda>i. buf ! ((p + i) mod length buf)) [0..<n]),
                  (noise_position m + int n) mod int (length buf))"
    by (simp add: p(1) zmod_int)
  show ?thesis
    by (simp add: get_noise_chunk_def assms(1) np_zeros_def loop p_def)
qed

lemma length_int16_tobytes: "length (int16_tobytes ws) = 2 * length ws"
  by (induction ws) (simp_all add: int16_tobytes_def)

lemma length_to_pcm16_bytes: "length (to_pcm16_bytes F xs) = 2 * length xs"
  by (simp add: to_pcm16_bytes_def length_int16_tobytes)

lemma ambient_only_returns:
  assumes "is_enabled m" "noise_buffer m = Some buf" "buf \<noteq> []"
    and "0 \<le> noise_position m" "noise_position m < int (length buf)"
  shows "\<exists>bytes m'. get_ambient_only_chunk F m (int (2 * k)) = Some (Inr bytes, m')
           \<and> length bytes = 2 * k"
proof -
  have "int (2 * k) div BYTES_PER_SAMPLE = int k"
    by (simp add: BYTES_PER_SAMPLE_def)
  with assms(1) get_noise_chunk_wraps [OF assms(2-5), of F k] show ?thesis
    by (simp add: get_ambient_only_chunk_def Let_def length_to_pcm16_bytes soft_clip_default_def
          soft_clip_def)
qed

lemma ambient_only_eq_mix_zero:
  assumes "float_zero_laws F" "even n" "0 \<le> n"
  shows "get_ambient_only_chunk F m n = mix_tts_with_ambient F m (replicate (nat n) 0)"
proof (cases "is_enabled m")
  case False
  then show ?thesis
    by (simp add: get_ambient_only_chunk_def mix_tts_with_ambient_def)
next
  case True
  define k where "k = nat n div 2"
  from assms(2,3) have k: "nat n = 2 * k" "n = 2 * int k"
    by (auto simp: k_def even_nat_iff)
  have fb: "np_frombuffer_int16 (replicate (nat n) 0) = Inr (replicate k 0)"
    by (simp add: np_frombuffer_int16_def k(1) int16_of_bytes_zeros)
  have z: "f_div F (f_of_int16 F 0) (f_lit F 32768) = f_zero F"
    and u: "\<And>y. f_add F (f_zero F) y = y"
    using assms(1) by (simp_all add: float_zero_laws_def)
  have nk: "n div BYTES_PER_SAMPLE = int k"
    by (simp add: k(2) BYTES_PER_SAMPLE_def)
  show ?thesis
  proof (cases "get_noise_chunk F m (int k)")
    case None
    with True show ?thesis
      by (simp add: get_ambient_only_chunk_def mix_tts_with_ambient_def fb nk Let_def)
  next
    case (Some res)
    obtain r m' where res: "res = (r, m')" by (cases res)
    show ?thesis
    proof (cases r)
      case (Inl e)
      with True Some res show ?thesis
        by (simp add: get_ambient_only_chunk_def mix_tts_with_ambient_def fb nk Let_def)
    next
      case (Inr noise)
      with Some res have "int (length noise) = int k"
        by (intro noise_chunk_length) simp
      then have "length (map (\<lambda>x. f_mul F x (ambient_gain m')) noise) = k" by simp
      from map2_left_unit [where g = "f_add F" and z = "f_zero F", OF u this]
      have "map2 (f_add F) (replicate k (f_zero F)) (map (\<lambda>x. f_mul F x (ambient_gain m')) noise)
            = map (\<lambda>x. f_mul F x (ambient_gain m')) noise" .
      with True Some res Inr show ?thesis
        by (simp add: get_ambient_only_chunk_def mix_tts_with_ambient_def fb nk Let_def z
                 map_replicate_const)
    qed
  qed
qed

text \<open>
  Claim C3: for a mixer whose noise buffer \<open>buf\<close> has length \<open>L > 0\<close> and whose cursor \<open>c\<close> is in
  \<open>[0, L)\<close>, \<open>_get_noise_chunk(n)\<close> returns exactly the \<open>n\<close> samples \<open>buf[(c + i) mod L]\<close> for
  \<open>i = 0..n-1\<close> (a span longer than \<open>L\<close> wraps to offset 0 with no gap and no repeated sample)
  and leaves the cursor at \<open>(c + n) mod L\<close>, which is again in \<open>[0, L)\<close>, as is the cursor after
  \<open>reset\<close>.
\<close>

theorem C3_noise_chunk_cyclic:
  assumes "noise_buffer m = Some buf" "buf \<noteq> []"
    and "0 \<le> noise_position m" "noise_position m < int (length buf)"
  shows "get_noise_chunk F m (int n)
           = Some (Inr (map (\<lambda>i. buf ! ((nat (noise_position m) + i) mod length buf)) [0..<n]),
                   m\<lparr>noise_position := (noise_position m + int n) mod int (length buf)\<rparr>)
         \<and> 0 \<le> (noise_position m + int n) mod int (length buf)
         \<and> (noise_position m + int n) mod int (length buf) < int (length buf)
         \<and> 0 \<le> noise_position (reset m) \<and> noise_position (reset m) < int (length buf)"
proof -
  have "0 < int (length buf)" using assms(2) by simp
  with get_noise_chunk_wraps [OF assms, of F n] show ?thesis by (simp add: reset_def)
qed

theorem C3_noise_chunk_cyclic_witness:
  "noise_buffer office_mixer = Some [1 / 2, - 1 / 4, 1 / 8] \<and> [1 / 2, - 1 / 4, 1 / 8 :: real] \<noteq> []
   \<and> 0 \<le> noise_position office_mixer
   \<and> noise_position office_mixer < int (length [1 / 2, - 1 / 4, 1 / 8 :: real])
   \<and> get_noise_chunk exact_float office_mixer 7
       = Some (Inr [- 1 / 4, 1 / 8, 1 / 2, - 1 / 4, 1 / 8, 1 / 2, - 1 / 4],
               office_mixer\<lparr>noise_position := 2\<rparr>)"
proof -
  have u: "[0..<7] = [0, 1, 2, 3, 4, 5, 6]" by (simp add: upt_rec)
  have h: "noise_buffer office_mixer = Some [1 / 2, - 1 / 4, 1 / 8]"
    "[1 / 2, - 1 / 4, 1 / 8 :: real] \<noteq> []"
    "0 \<le> noise_position office_mixer"
    "noise_position office_mixer < int (length [1 / 2, - 1 / 4, 1 / 8 :: real])"
    by (simp_all add: office_mixer_def)
  from C3_noise_chunk_cyclic [OF h, of exact_float 7] h show ?thesis
    by (simp add: u office_mixer_def)
qed

text \<open>
  Claim C4: for a mixer in the Disabled state (preset \<open>none\<close>, or no noise buffer),
  \<open>mix_tts_with_ambient(x)\<close> returns \<open>x\<close> byte-identical for every byte string \<open>x\<close>, and
  \<open>get_ambient_only_chunk(n)\<close> returns exactly \<open>n\<close> zero bytes for every \<open>n \<ge> 0\<close>; the mixer is
  left unchanged.
\<close>

theorem C4_disabled_identity_and_silence:
  assumes "\<not> is_enabled m"
  shows "mix_tts_with_ambient F m x = Some (Inr x, m)
         \<and> (0 \<le> n \<longrightarrow>
              get_ambient_only_chunk F m n = Some (Inr (replicate (nat n) 0), m)
              \<and> int (length (replicate (nat n) (0 :: byte))) = n)"
  using assms by (simp add: mix_tts_with_ambient_def get_ambient_only_chunk_def)

theorem C4_disabled_identity_and_silence_witness:
  "\<not> is_enabled silent_mixer
   \<and> mix_tts_with_ambient exact_float silent_mixer [1, 2, 3] = Some (Inr [1, 2, 3], silent_mixer)
   \<and> (0 :: int) \<le> 4
   \<and> get_ambient_only_chunk exact_float silent_mixer 4 = Some (Inr [0, 0, 0, 0], silent_mixer)"
proof -
  have d: "\<not> is_enabled silent_mixer"
    by (simp add: is_enabled_def silent_mixer_def)
  have r: "replicate (nat 4) (0 :: byte) = [0, 0, 0, 0]"
    by (simp add: numeral_eq_Suc)
  from C4_disabled_identity_and_silence [OF d, of exact_float "[1, 2, 3]" 4] d r
  show ?thesis by simp
qed

text \<open>
  Claim C6: for every mixer state and every even byte count \<open>n \<ge> 0\<close>,
  \<open>get_ambient_only_chunk(n)\<close> has the same outcome (output bytes and final cursor, or the same
  failure to return) as \<open>mix_tts_with_ambient\<close> applied to \<open>n\<close> zero bytes in the same state;
  and when the mixer is disabled or its cursor is inside a non-empty buffer, that outcome is
  a returned buffer of \<open>n\<close> bytes. The float arithmetic enters only through
  \<open>float_zero_laws\<close>.
\<close>

theorem C6_ambient_only_refines_mix:
  assumes "float_zero_laws F" "even n" "0 \<le> n"
  shows "get_ambient_only_chunk F m n = mix_tts_with_ambient F m (replicate (nat n) 0)
         \<and> ((\<not> is_enabled m
              \<or> (\<exists>buf. noise_buffer m = Some buf \<and> buf \<noteq> []
                    \<and> 0 \<le> noise_position m \<and> noise_position m < int (length buf)))
             \<longrightarrow> (\<exists>bytes m'. get_ambient_only_chunk F m n = Some (Inr bytes, m')
                    \<and> int (length bytes) = n))"
proof
  show "get_ambient_only_chunk F m n = mix_tts_with_ambient F m (replicate (nat n) 0)"
    using assms by (rule ambient_only_eq_mix_zero)
next
  define k where "k = nat n div 2"
  from assms(2,3) have k: "n = int (2 * k)"
    by (auto simp: k_def even_nat_iff)
  show "(\<not> is_enabled m
          \<or> (\<exists>buf. noise_buffer m = Some buf \<and> buf \<noteq> []
                \<and> 0 \<le> noise_position m \<and> noise_position m < int (length buf)))
         \<longrightarrow> (\<exists>bytes m'. get_ambient_only_chunk F m n = Some (Inr bytes, m')
                \<and> int (length bytes) = n)"
  proof (cases "is_enabled m")
    case False
    with assms(3) show ?thesis by (simp add: get_ambient_only_chunk_def)
  next
    case True
    show ?thesis
    proof
      assume "\<not> is_enabled m
          \<or> (\<exists>buf. noise_buffer m = Some buf \<and> buf \<noteq> []
                \<and> 0 \<le> noise_position m \<and> noise_position m < int (length buf))"
      with True obtain buf where b: "noise_buffer m = Some buf" "buf \<noteq> []"
        "0 \<le> noise_position m" "noise_position m < int (length buf)" by blast
      from ambient_only_returns [OF True b, of F k] obtain bytes m' where
        "get_ambient_only_chunk F m (int (2 * k)) = Some (Inr bytes, m')" "length bytes = 2 * k"
        by blast
      then show "\<exists>bytes m'. get_ambient_only_chunk F m n = Some (Inr bytes, m')
                \<and> int (length bytes) = n"
        unfolding k by (intro exI [of _ bytes] exI [of _ m']) simp
    qed
  qed
qed

theorem C6_ambient_only_refines_mix_witness:
  "float_zero_laws exact_float \<and> even (4 :: int) \<and> (0 :: int) \<le> 4
   \<and> get_ambient_only_chunk exact_float office_mixer 4
       = mix_tts_with_ambient exact_float office_mixer [0, 0, 0, 0]
   \<and> noise_buffer office_mixer = Some [1 / 2, - 1 / 4, 1 / 8]
   \<and> (\<exists>bytes m'. get_ambient_only_chunk exact_float office_mixer 4 = Some (Inr bytes, m')
         \<and> int (length bytes) = 4)"
proof -
  have l: "float_zero_laws exact_float"
    by (simp add: float_zero_laws_def exact_float_def)
  have r: "replicate (nat 4) (0 :: byte) = [0, 0, 0, 0]"
    by (simp add: numeral_eq_Suc)
  have b: "noise_buffer office_mixer = Some [1 / 2, - 1 / 4, 1 / 8]"
    "\<exists>buf. noise_buffer office_mixer = Some buf \<and> buf \<noteq> []
        \<and> 0 \<le> noise_position office_mixer \<and> noise_position office_mixer < int (length buf)"
    by (simp_all add: office_mixer_def)
  have e: "even (4 :: int)" "(0 :: int) \<le> 4" by simp_all
  from C6_ambient_only_refines_mix [OF l e, of office_mixer, unfolded r] l e b
  show ?thesis by blast
qed

text \<open>
  Claim C10: on an input of odd length, \<open>mix_tts_with_ambient\<close> of an Enabled mixer raises
  (\<open>np.frombuffer\<close> needs an even byte count) and leaves the mixer unchanged, whereas a
  Disabled mixer returns the same input unchanged.
\<close>

theorem C10_mix_partial_on_odd_length:
  assumes "odd (length x)"
  shows "(is_enabled m \<longrightarrow> mix_tts_with_ambient F m x = Some (Inl ValueError, m))
         \<and> (\<not> is_enabled m \<longrightarrow> mix_tts_with_ambient F m x = Some (Inr x, m))"
proof -
  from assms have "length x mod 2 \<noteq> 0" by presburger
  then show ?thesis
    by (simp add: mix_tts_with_ambient_def np_frombuffer_int16_def)
qed

theorem C10_mix_partial_on_odd_length_witness:
  "odd (length [1, 2, 3 :: byte])
   \<and> is_enabled office_mixer
   \<and> mix_tts_with_ambient exact_float office_mixer [1, 2, 3] = Some (Inl ValueError, office_mixer)
   \<and> \<not> is_enabled silent_mixer
   \<and> mix_tts_with_ambient exact_float silent_mixer [1, 2, 3] = Some (Inr [1, 2, 3], silent_mixer)"
proof -
  have o: "odd (length [1, 2, 3 :: byte])" by simp
  have e: "is_enabled office_mixer" "\<not> is_enabled silent_mixer"
    by (simp_all add: is_enabled_def office_mixer_def silent_mixer_def)
  from C10_mix_partial_on_odd_length [OF o, of office_mixer exact_float]
       C10_mix_partial_on_odd_length [OF o, of silent_mixer exact_float] o e
  show ?thesis by simp
qed

subsection \<open>Soft clipping\<close>







section \<open>Properties of the relay\<close>

lemma update_stream_context_fields:
  "call_sid (update_stream_context h c s r a) = (if truthy_str c then c else call_sid h)"
  "stream_sid (update_stream_context h c s r a) = (if truthy_str s then s else stream_sid h)"
  "recording_sid (update_stream_context h c s r a) = (if truthy_str r then r else recording_sid h)"
  "attempt (update_stream_context h c s r a)
     = (case a of Some (AttemptInt i) \<Rightarrow> Some i | _ \<Rightarrow> attempt h)"
  by (simp_all add: update_stream_context_def Let_def split: option.splits attempt_arg.splits)

lemma apply_update_keeps:
  "truthy_str (call_sid h) \<Longrightarrow> truthy_str (call_sid (apply_update h u))"
  "truthy_str (stream_sid h) \<Longrightarrow> truthy_str (stream_sid (apply_update h u))"
  "truthy_str (recording_sid h) \<Longrightarrow> truthy_str (recording_sid (apply_update h u))"
  "attempt h \<noteq> None \<Longrightarrow> attempt (apply_update h u) \<noteq> None"
  by (simp_all add: apply_update_def update_stream_context_fields
        split: option.splits attempt_arg.splits)

lemma foldl_preserves:
  "(\<And>x u. P x \<Longrightarrow> P (f x u)) \<Longrightarrow> P x \<Longrightarrow> P (foldl f x us)"
  by (induction us arbitrary: x) simp_all

lemma apply_updates_keeps:
  "truthy_str (call_sid h) \<Longrightarrow> truthy_str (call_sid (apply_updates h us))"
  "truthy_str (stream_sid h) \<Longrightarrow> truthy_str (stream_sid (apply_updates h us))"
  "truthy_str (recording_sid h) \<Longrightarrow> truthy_str (recording_sid (apply_updates h us))"
  "attempt h \<noteq> None \<Longrightarrow> attempt (apply_updates h us) \<noteq> None"
proof -
  show "truthy_str (call_sid h) \<Longrightarrow> truthy_str (call_sid (apply_updates h us))"
    unfolding apply_updates_def
    by (rule foldl_preserves [where P = "\<lambda>h. truthy_str (call_sid h)"]) (rule apply_update_keeps)
  show "truthy_str (stream_sid h) \<Longrightarrow> truthy_str (stream_sid (apply_updates h us))"
    unfolding apply_updates_def
    by (rule foldl_preserves [where P = "\<lambda>h. truthy_str (stream_sid h)"]) (rule apply_update_keeps)
  show "truthy_str (recording_sid h) \<Longrightarrow> truthy_str (recording_sid (apply_updates h us))"
    unfolding apply_updates_def
    by (rule foldl_preserves [where P = "\<lambda>h. truthy_str (recording_sid h)"])
       (rule apply_update_keeps)
  show "attempt h \<noteq> None \<Longrightarrow> attempt (apply_updates h us) \<noteq> None"
    unfolding apply_updates_def
    by (rule foldl_preserves [where P = "\<lambda>h. attempt h \<noteq> None"]) (rule apply_update_keeps)
qed

text \<open>
  Claim C1 as stated fails: a later call with a different non-empty \<open>call_sid\<close> replaces the
  value set before.
\<close>

theorem C1_fields_changed_counterexample:
  "call_sid (update_stream_context (init_handler False False) (Some ''CA1'') None None None)
     = Some ''CA1''
   \<and> call_sid (update_stream_context
        (update_stream_context (init_handler False False) (Some ''CA1'') None None None)
        (Some ''CA2'') None None None) = Some ''CA2''"
  by (simp add: update_stream_context_fields truthy_str_def init_handler_def)

text \<open>
  Claim C1, amended: over every sequence of \<open>update_stream_context\<close> calls a field that is
  non-empty stays non-empty (it is never cleared); a call leaves a field equal to its
  previous value when its argument for that field is \<open>None\<close> or empty (for \<open>attempt\<close>: \<open>None\<close>
  or not convertible to an integer), and otherwise sets the field to the argument.
\<close>

theorem C1_context_fields_never_cleared:
  "(truthy_str (call_sid h) \<longrightarrow> truthy_str (call_sid (apply_updates h us)))
   \<and> (truthy_str (stream_sid h) \<longrightarrow> truthy_str (stream_sid (apply_updates h us)))
   \<and> (truthy_str (recording_sid h) \<longrightarrow> truthy_str (recording_sid (apply_updates h us)))
   \<and> (attempt h \<noteq> None \<longrightarrow> attempt (apply_updates h us) \<noteq> None)
   \<and> call_sid (update_stream_context h c s r a) = (if truthy_str c then c else call_sid h)
   \<and> stream_sid (update_stream_context h c s r a) = (if truthy_str s then s else stream_sid h)
   \<and> recording_sid (update_stream_context h c s r a)
       = (if truthy_str r then r else recording_sid h)
   \<and> attempt (update_stream_context h c s r a)
       = (case a of Some (AttemptInt i) \<Rightarrow> Some i | _ \<Rightarrow> attempt h)"
  using apply_updates_keeps [of h us] update_stream_context_fields [of h c s r a]
  by blast

theorem C1_context_fields_never_cleared_witness:
  "truthy_str (call_sid voicemail_handler) \<and> truthy_str (stream_sid voicemail_handler)
   \<and> truthy_str (recording_sid voicemail_handler) \<and> attempt voicemail_handler \<noteq> None
   \<and> truthy_str (call_sid (apply_updates voicemail_handler
        [\<lparr>arg_call_sid = Some ''CA2'', arg_stream_sid = Some [], arg_recording_sid = None,
          arg_attempt = Some AttemptInvalid\<rparr>]))
   \<and> truthy_str (stream_sid (apply_updates voicemail_handler
        [\<lparr>arg_call_sid = Some ''CA2'', arg_stream_sid = Some [], arg_recording_sid = None,
          arg_attempt = Some AttemptInvalid\<rparr>]))
   \<and> truthy_str (recording_sid (apply_updates voicemail_handler
        [\<lparr>arg_call_sid = Some ''CA2'', arg_stream_sid = Some [], arg_recording_sid = None,
          arg_attempt = Some AttemptInvalid\<rparr>]))
   \<and> attempt (apply_updates voicemail_handler
        [\<lparr>arg_call_sid = Some ''CA2'', arg_stream_sid = Some [], arg_recording_sid = None,
          arg_attempt = Some AttemptInvalid\<rparr>]) \<noteq> None
   \<and> call_sid (update_stream_context voicemail_handler (Some ''CA2'') (Some []) None
        (Some AttemptInvalid)) = Some ''CA2''
   \<and> stream_sid (update_stream_context voicemail_handler (Some ''CA2'') (Some []) None
        (Some AttemptInvalid)) = Some ''MZ1''
   \<and> attempt (update_stream_context voicemail_handler (Some ''CA2'') (Some []) None
        (Some AttemptInvalid)) = Some 1"
proof -
  have h: "truthy_str (call_sid voicemail_handler)" "truthy_str (stream_sid voicemail_handler)"
    "truthy_str (recording_sid voicemail_handler)" "attempt voicemail_handler \<noteq> None"
    by (simp_all add: voicemail_handler_def init_handler_def truthy_str_def)
  have v: "call_sid voicemail_handler = Some ''CA1''" "stream_sid voicemail_handler = Some ''MZ1''"
    "attempt voicemail_handler = Some 1"
    by (simp_all add: voicemail_handler_def init_handler_def)
  from C1_context_fields_never_cleared [of voicemail_handler
         "[\<lparr>arg_call_sid = Some ''CA2'', arg_stream_sid = Some [], arg_recording_sid = None,
            arg_attempt = Some AttemptInvalid\<rparr>]"
         "Some ''CA2''" "Some []" None "Some AttemptInvalid"] h v
  show ?thesis by (simp add: truthy_str_def)
qed

subsection \<open>Transcript persistence and SMS enqueue\<close>

lemma persist_never_raises: "snd (persist h co task) = None"
  by (simp add: persist_def Let_def split: sum.splits)

lemma enqueue_candidate_shape:
  "\<exists>rest. (enqueue_candidate h co cand :: 'c persist_action list) = Enqueue cand # rest
     \<and> (\<forall>c. Enqueue c \<notin> set rest)"
  by (simp add: enqueue_candidate_def split: option.splits)

lemma persist_enqueue:
  assumes "Enqueue c \<in> set (fst (persist h co task))"
  shows "\<exists>url. store_transcript_result co = Inr url
           \<and> fst (persist h co task)
              = [StoreTranscript (or_empty (call_sid h)) (or_empty (recording_sid h))
                   (attempt h) (task_transcript task) (task_confidence task),
                 BuildSmsCandidate (call_sid h) (recording_sid h) (attempt h)]
                @ enqueue_candidate h co c"
proof (cases "transcription_store h")
  case False
  with assms show ?thesis by (simp add: persist_def)
next
  case ts: True
  show ?thesis
  proof (cases "store_transcript_result co")
    case (Inl e)
    with assms ts show ?thesis by (simp add: persist_def)
  next
    case st: (Inr url)
    show ?thesis
    proof (cases "sms_queue h")
      case False
      with assms ts st show ?thesis by (simp add: persist_def)
    next
      case q: True
      show ?thesis
      proof (cases "build_sms_candidate_result co")
        case (Inl e)
        with assms ts st q show ?thesis by (simp add: persist_def)
      next
        case b: (Inr cand)
        show ?thesis
        proof (cases "truthy cand")
          case False
          with assms ts st q b show ?thesis by (simp add: persist_def)
        next
          case True
          with ts st q b have f: "fst (persist h co task)
              = [StoreTranscript (or_empty (call_sid h)) (or_empty (recording_sid h))
                   (attempt h) (task_transcript task) (task_confidence task),
                 BuildSmsCandidate (call_sid h) (recording_sid h) (attempt h)]
                @ enqueue_candidate h co cand"
            by (simp add: persist_def)
          from enqueue_candidate_shape [of h co cand] obtain rest where
            r: "(enqueue_candidate h co cand :: 'a persist_action list) = Enqueue cand # rest"
              "\<forall>c. Enqueue c \<notin> set rest" by blast
          with assms f have "c = cand" by auto
          with f st show ?thesis by simp
        qed
      qed
    qed
  qed
qed

lemma schedule_Some:
  assumes "schedule_transcript_persist py_float h transcript event = Inr (Some task)"
  shows "transcription_store h \<and> truthy_str (call_sid h) \<and> truthy_str (recording_sid h)
         \<and> attempt h \<noteq> None \<and> task_transcript task = transcript"
  using assms
  by (auto simp: schedule_transcript_persist_def split: if_splits sum.splits)

text \<open>
  Claim C2: the persistence task enqueues an SMS candidate only after its
  \<open>store_transcript\<close> call for that transcript has returned normally, and only when a recording
  identifier and an attempt number were known at the moment the task was scheduled; no
  exception escapes the task; and when the enqueue call raises, the exception is logged and
  nothing follows it.
\<close>

theorem C2_enqueue_only_after_persist:
  "(Enqueue c \<in> set (fst (schedule_and_run (py_float :: json \<Rightarrow> py_error + 'c)
                          h h' co transcript event)) \<longrightarrow>
      (\<exists>url. store_transcript_result co = Inr url)
      \<and> truthy_str (recording_sid h) \<and> attempt h \<noteq> None
      \<and> (\<exists>conf rest. fst (schedule_and_run py_float h h' co transcript event)
            = StoreTranscript (or_empty (call_sid h')) (or_empty (recording_sid h'))
                (attempt h') transcript conf
              # BuildSmsCandidate (call_sid h') (recording_sid h') (attempt h')
              # Enqueue c # rest))
   \<and> snd (persist h' co (task :: 'c persist_task)) = None
   \<and> (enqueue_result co \<noteq> None \<longrightarrow>
        Enqueue c \<in> set (fst (persist h' co task)) \<longrightarrow>
        (\<exists>store build. fst (persist h' co task)
           = [store, build, Enqueue c,
              LogException ''[VoiceLive] Failed to enqueue SMS delivery job'']))"
proof (intro conjI impI)
  assume e: "Enqueue c \<in> set (fst (schedule_and_run py_float h h' co transcript event))"
  then obtain t where t: "schedule_transcript_persist py_float h transcript event = Inr (Some t)"
    and p: "schedule_and_run py_float h h' co transcript event = persist h' co t"
    by (auto simp: schedule_and_run_def split: sum.splits option.splits)
  from schedule_Some [OF t] show "truthy_str (recording_sid h)" "attempt h \<noteq> None" by simp_all
  from e p have "Enqueue c \<in> set (fst (persist h' co t))" by simp
  from persist_enqueue [OF this] obtain url where
    u: "store_transcript_result co = Inr url" and
    f: "fst (persist h' co t) =
          [StoreTranscript (or_empty (call_sid h')) (or_empty (recording_sid h'))
             (attempt h') (task_transcript t) (task_confidence t),
           BuildSmsCandidate (call_sid h') (recording_sid h') (attempt h')]
          @ enqueue_candidate h' co c"
    by blast
  from u show "\<exists>url. store_transcript_result co = Inr url" by blast
  from enqueue_candidate_shape [of h' co c] obtain rest where
    "(enqueue_candidate h' co c :: 'c persist_action list) = Enqueue c # rest" by blast
  with f p schedule_Some [OF t]
  show "\<exists>conf rest. fst (schedule_and_run py_float h h' co transcript event)
            = StoreTranscript (or_empty (call_sid h')) (or_empty (recording_sid h'))
                (attempt h') transcript conf
              # BuildSmsCandidate (call_sid h') (recording_sid h') (attempt h')
              # Enqueue c # rest"
    by simp
next
  show "snd (persist h' co task) = None" by (rule persist_never_raises)
next
  assume r: "enqueue_result co \<noteq> None" and e: "Enqueue c \<in> set (fst (persist h' co task))"
  from r have "(enqueue_candidate h' co c :: 'c persist_action list)
      = [Enqueue c, LogException ''[VoiceLive] Failed to enqueue SMS delivery job'']"
    by (auto simp: enqueue_candidate_def)
  with persist_enqueue [OF e]
  show "\<exists>store build. fst (persist h' co task)
           = [store, build, Enqueue c,
              LogException ''[VoiceLive] Failed to enqueue SMS delivery job'']"
    by auto
qed

theorem C2_enqueue_only_after_persist_witness:
  "Enqueue sms_candidate
     \<in> set (fst (schedule_and_run no_float voicemail_handler voicemail_handler failing_queue
                   (JStr ''hello'') transcription_event))
   \<and> enqueue_result failing_queue \<noteq> None
   \<and> store_transcript_result failing_queue = Inr ''https://blob/CA1''
   \<and> truthy_str (recording_sid voicemail_handler) \<and> attempt voicemail_handler \<noteq> None
   \<and> schedule_and_run no_float voicemail_handler voicemail_handler failing_queue
        (JStr ''hello'') transcription_event
      = ([StoreTranscript ''CA1'' ''RE1'' (Some 1) (JStr ''hello'') None,
          BuildSmsCandidate (Some ''CA1'') (Some ''RE1'') (Some 1),
          Enqueue sms_candidate,
          LogException ''[VoiceLive] Failed to enqueue SMS delivery job''], None)"
proof -
  have s: "schedule_transcript_persist no_float voicemail_handler (JStr ''hello'')
             transcription_event
           = Inr (Some \<lparr> task_transcript = JStr ''hello'', task_confidence = None \<rparr>)"
    by (simp add: schedule_transcript_persist_def voicemail_handler_def init_handler_def
          truthy_str_def extract_confidence_def transcription_event_def)
  have p: "persist voicemail_handler failing_queue
             \<lparr> task_transcript = JStr ''hello'', task_confidence = (None :: unit option) \<rparr>
           = ([StoreTranscript ''CA1'' ''RE1'' (Some 1) (JStr ''hello'') None,
               BuildSmsCandidate (Some ''CA1'') (Some ''RE1'') (Some 1),
               Enqueue sms_candidate,
               LogException ''[VoiceLive] Failed to enqueue SMS delivery job''], None)"
    by (simp add: persist_def Let_def voicemail_handler_def init_handler_def failing_queue_def
          or_empty_def enqueue_candidate_def sms_candidate_def)
  have r: "schedule_and_run no_float voicemail_handler voicemail_handler failing_queue
        (JStr ''hello'') transcription_event
      = ([StoreTranscript ''CA1'' ''RE1'' (Some 1) (JStr ''hello'') None,
          BuildSmsCandidate (Some ''CA1'') (Some ''RE1'') (Some 1),
          Enqueue sms_candidate,
          LogException ''[VoiceLive] Failed to enqueue SMS delivery job''], None)"
    by (simp add: schedule_and_run_def s p)
  have e: "Enqueue sms_candidate
     \<in> set (fst (schedule_and_run no_float voicemail_handler voicemail_handler failing_queue
                   (JStr ''hello'') transcription_event))"
    by (simp add: r)
  have f: "enqueue_result failing_queue \<noteq> None"
    by (simp add: failing_queue_def)
  have e': "Enqueue sms_candidate \<in> set (fst (persist voicemail_handler failing_queue
             \<lparr> task_transcript = JStr ''hello'', task_confidence = (None :: unit option) \<rparr>))"
    by (simp add: p)
  from C2_enqueue_only_after_persist [of sms_candidate no_float voicemail_handler
         voicemail_handler failing_queue "JStr ''hello''" transcription_event
         "\<lparr> task_transcript = JStr ''hello'', task_confidence = None \<rparr>"] e f e' r
  show ?thesis
    by (simp add: failing_queue_def)
qed

subsection \<open>Audio deltas in the receive loop\<close>

lemma b64_value_A: "b64_value CHR ''A'' = Some 0"
  by (simp add: b64_value_def)

lemma b64decode_silence: "b64decode ''AAAAAAAAAAA='' = Inr [0, 0, 0, 0, 0, 0, 0, 0]"
  by (simp add: b64decode_def b64_value_A)

text \<open>
  Claim C9 as stated fails: a \<open>response.audio.delta\<close> message whose \<open>delta\<close> is empty invokes no
  callback, although one is registered.
\<close>

theorem C9_empty_delta_counterexample:
  "on_audio_chunk listening_handler \<noteq> None
   \<and> receiver_body (\<lambda>_. Inl TypeError :: py_error + unit) listening_handler
        (JObj [(''type'', JStr ''response.audio.delta''), (''delta'', JStr [])])
       = ([], None, None)"
  by (simp add: receiver_body_def listening_handler_def)

text \<open>
  Claim C9, amended: a decoded message whose type is \<open>response.audio.delta\<close> and whose \<open>delta\<close> is
  a non-empty string that base64-decodes without error invokes the registered audio callback
  exactly once, with the decoded bytes, and nothing else; the delta \<open>AAAAAAAAAAA=\<close> carries 4
  zero-valued 16-bit samples. A message of that type whose \<open>delta\<close> is missing or empty (any
  value Python treats as false) invokes no callback and raises nothing.
\<close>

theorem C9_audio_delta_emits_chunk:
  assumes "py_get event ''type'' JNull = Inr (JStr ''response.audio.delta'')"
    and "py_get event ''delta'' JNull = Inr delta"
  shows "(delta = JStr d \<and> d \<noteq> [] \<and> b64decode d = Inr chunk \<and> on_audio_chunk h = Some cb \<longrightarrow>
            receiver_body py_float h event = ([AudioChunk chunk], None, cb chunk)
            \<and> (d = ''AAAAAAAAAAA='' \<longrightarrow> chunk = int16_tobytes [0, 0, 0, 0]))
         \<and> (\<not> truthy delta \<longrightarrow> receiver_body py_float h event = ([], None, None))"
proof (intro conjI impI)
  assume a: "delta = JStr d \<and> d \<noteq> [] \<and> b64decode d = Inr chunk \<and> on_audio_chunk h = Some cb"
  with assms show "receiver_body py_float h event = ([AudioChunk chunk], None, cb chunk)"
    by (simp add: receiver_body_def emit_audio_chunk_def)
  assume "d = ''AAAAAAAAAAA=''"
  with a show "chunk = int16_tobytes [0, 0, 0, 0]"
    by (auto simp: b64decode_silence int16_tobytes_def)
next
  assume "\<not> truthy delta"
  with assms show "receiver_body py_float h event = ([], None, None)"
    by (simp add: receiver_body_def)
qed

theorem C9_audio_delta_emits_chunk_witness:
  "py_get silence_delta_event ''type'' JNull = Inr (JStr ''response.audio.delta'')
   \<and> py_get silence_delta_event ''delta'' JNull = Inr (JStr ''AAAAAAAAAAA='')
   \<and> ''AAAAAAAAAAA='' \<noteq> []
   \<and> b64decode ''AAAAAAAAAAA='' = Inr [0, 0, 0, 0, 0, 0, 0, 0]
   \<and> on_audio_chunk listening_handler = Some (\<lambda>_. None)
   \<and> receiver_body no_float listening_handler silence_delta_event
       = ([AudioChunk [0, 0, 0, 0, 0, 0, 0, 0]], None, None)
   \<and> [0, 0, 0, 0, 0, 0, 0, 0] = int16_tobytes [0, 0, 0, 0]
   \<and> py_get empty_delta_event ''type'' JNull = Inr (JStr ''response.audio.delta'')
   \<and> py_get empty_delta_event ''delta'' JNull = Inr (JStr [])
   \<and> \<not> truthy (JStr [])
   \<and> receiver_body no_float listening_handler empty_delta_event = ([], None, None)
   \<and> py_get missing_delta_event ''type'' JNull = Inr (JStr ''response.audio.delta'')
   \<and> py_get missing_delta_event ''delta'' JNull = Inr JNull
   \<and> \<not> truthy JNull
   \<and> receiver_body no_float listening_handler missing_delta_event = ([], None, None)"
proof -
  have a: "py_get silence_delta_event ''type'' JNull = Inr (JStr ''response.audio.delta'')"
    "py_get silence_delta_event ''delta'' JNull = Inr (JStr ''AAAAAAAAAAA='')"
    by (simp_all add: silence_delta_event_def)
  have b: "py_get empty_delta_event ''type'' JNull = Inr (JStr ''response.audio.delta'')"
    "py_get empty_delta_event ''delta'' JNull = Inr (JStr [])"
    by (simp_all add: empty_delta_event_def)
  have m: "py_get missing_delta_event ''type'' JNull = Inr (JStr ''response.audio.delta'')"
    "py_get missing_delta_event ''delta'' JNull = Inr JNull"
    by (simp_all add: missing_delta_event_def)
  have c: "on_audio_chunk listening_handler = Some (\<lambda>_. None)"
    by (simp add: listening_handler_def)
  have s: "int16_tobytes [0, 0, 0, 0] = [0, 0, 0, 0, 0, 0, 0, 0]"
    by (simp add: int16_tobytes_def)
  from C9_audio_delta_emits_chunk [OF a, of "''AAAAAAAAAAA=''" "[0, 0, 0, 0, 0, 0, 0, 0]" listening_handler
              "\<lambda>_. None" no_float]
       C9_audio_delta_emits_chunk [OF b, of _ _ listening_handler _ no_float]
       C9_audio_delta_emits_chunk [OF m, of _ _ listening_handler _ no_float]
       a b m c s b64decode_silence
  show ?thesis by simp
qed

section \<open>Properties of the Twilio decoder\<close>

lemma b64decode_ff: "b64decode ''//8='' = Inr [255, 255]"
  by (simp add: b64decode_def b64_value_def)

lemma ulaw_silence: "st_ulaw2linear16 255 = 0"
  by (simp add: st_ulaw2linear16_def)

lemma pcm_of_ff: "audioop_ulaw2lin [255, 255] = [0, 0, 0, 0]"
  by (simp add: audioop_ulaw2lin_def int16_tobytes_def ulaw_silence)

text \<open>
  Claim C8: when the target rate equals the source rate (8000 Hz), \<open>mulaw_b64_to_pcm16\<close>
  returns the decoded PCM16 bytes unchanged: \<open>ratecv\<close> is not applied.
\<close>

theorem C8_same_rate_no_resample:
  "mulaw_b64_to_pcm16 s SOURCE_SAMPLE_RATE_HZ
     = Some (case b64decode s of Inl e \<Rightarrow> Inl e | Inr mulaw \<Rightarrow> Inr (audioop_ulaw2lin mulaw))"
  by (simp add: mulaw_b64_to_pcm16_def split: sum.splits)

lemma length_int16_of_bytes: "length (int16_of_bytes bs) = length bs div 2"
  by (induction bs rule: int16_of_bytes.induct) simp_all

lemma length_audioop_ulaw2lin: "length (audioop_ulaw2lin fragment) = 2 * length fragment"
  by (simp add: audioop_ulaw2lin_def length_int16_tobytes)

lemma ratecv_done:
  "d < 0 \<Longrightarrow> ratecv_loop inrate outrate d p c [] out = Some (out, d, p, c)"
  by (subst ratecv_loop.simps) simp

lemma ratecv_read:
  "d < 0 \<Longrightarrow> ratecv_loop inrate outrate d p c (s # rest) out
             = ratecv_loop inrate outrate (d + outrate) c s rest out"
  by (subst ratecv_loop.simps) simp

lemma ratecv_write:
  "0 \<le> d \<Longrightarrow> ratecv_loop inrate outrate d p c input out
             = ratecv_loop inrate outrate (d - inrate) p c input
                 (out @ [c_div (p * d + c * (outrate - d)) outrate])"
  by (subst ratecv_loop.simps) simp

lemma ratecv_triple_steady:
  "\<exists>out' st. ratecv_loop 1 3 (- 1) p c input out = Some (out', st)
      \<and> length out' = length out + 3 * length input"
proof (induction input arbitrary: p c out)
  case Nil
  show ?case by (simp add: ratecv_done)
next
  case (Cons s rest)
  have "ratecv_loop 1 3 (- 1) p c (s # rest) out
      = ratecv_loop 1 3 2 c s rest out"
    by (simp add: ratecv_read)
  also have "\<dots> = ratecv_loop 1 3 1 c s rest (out @ [c_div (c * 2 + s * (3 - 2)) 3])"
    by (subst ratecv_write) simp_all
  also have "\<dots> = ratecv_loop 1 3 0 c s rest
      ((out @ [c_div (c * 2 + s * (3 - 2)) 3]) @ [c_div (c * 1 + s * (3 - 1)) 3])"
    by (subst ratecv_write) simp_all
  also have "\<dots> = ratecv_loop 1 3 (- 1) c s rest
      (((out @ [c_div (c * 2 + s * (3 - 2)) 3]) @ [c_div (c * 1 + s * (3 - 1)) 3])
         @ [c_div (c * 0 + s * (3 - 0)) 3])"
    by (subst ratecv_write) simp_all
  finally show ?case
    using Cons.IH [of c s "((out @ [c_div (c * 2 + s * (3 - 2)) 3])
         @ [c_div (c * 1 + s * (3 - 1)) 3]) @ [c_div (c * 0 + s * (3 - 0)) 3]"]
    by auto
qed

lemma ratecv_triple_initial:
  "\<exists>out st. ratecv_loop 1 3 (- 3) 0 0 input [] = Some (out, st)
      \<and> length out = (if input = [] then 0 else 3 * length input - 2)"
proof (cases input)
  case Nil
  then show ?thesis by (simp add: ratecv_done)
next
  case (Cons s rest)
  have "ratecv_loop 1 3 (- 3) 0 0 (s # rest) [] = ratecv_loop 1 3 0 0 s rest []"
    by (simp add: ratecv_read)
  also have "\<dots> = ratecv_loop 1 3 (- 1) 0 s rest ([] @ [c_div (0 * 0 + s * (3 - 0)) 3])"
    by (subst ratecv_write) simp_all
  finally show ?thesis
    using ratecv_triple_steady [of 0 s rest "[] @ [c_div (0 * 0 + s * (3 - 0)) 3]"] Cons
    by auto
qed

lemma gcd_rates: "gcd SOURCE_SAMPLE_RATE_HZ TARGET_SAMPLE_RATE_HZ = 8000"
  by (simp add: SOURCE_SAMPLE_RATE_HZ_def TARGET_SAMPLE_RATE_HZ_def)

lemma audioop_ratecv_triple:
  assumes "even (length fragment)"
  shows "\<exists>out st. audioop_ratecv fragment SOURCE_SAMPLE_RATE_HZ TARGET_SAMPLE_RATE_HZ
                     = Some (Inr (out, st))
           \<and> length out = 2 * (if fragment = [] then 0 else 3 * (length fragment div 2) - 2)"
proof -
  define input where "input = map (\<lambda>w. sint w * 65536) (int16_of_bytes fragment)"
  from ratecv_triple_initial [of input] obtain out st where
    l: "ratecv_loop 1 3 (- 3) 0 0 input [] = Some (out, st)"
    and n: "length out = (if input = [] then 0 else 3 * length input - 2)" by blast
  have li: "length input = length fragment div 2"
    by (simp add: input_def length_int16_of_bytes)
  have e: "input = [] \<longleftrightarrow> fragment = []"
  proof
    assume "input = []"
    then have "length fragment div 2 = 0" using li by simp
    with assms show "fragment = []" by (cases fragment) auto
  next
    assume "fragment = []"
    then show "input = []" by (simp add: input_def)
  qed
  have r: "SOURCE_SAMPLE_RATE_HZ div 8000 = 1" "TARGET_SAMPLE_RATE_HZ div 8000 = 3"
    by (simp_all add: SOURCE_SAMPLE_RATE_HZ_def TARGET_SAMPLE_RATE_HZ_def)
  have pos: "\<not> (SOURCE_SAMPLE_RATE_HZ \<le> 0 \<or> TARGET_SAMPLE_RATE_HZ \<le> 0)"
    by (simp add: SOURCE_SAMPLE_RATE_HZ_def TARGET_SAMPLE_RATE_HZ_def)
  from assms have m: "length fragment mod 2 = 0" by presburger
  have "audioop_ratecv fragment SOURCE_SAMPLE_RATE_HZ TARGET_SAMPLE_RATE_HZ
          = Some (Inr (int16_tobytes (map (\<lambda>v. word_of_int (v div 65536)) out), st))"
    unfolding audioop_ratecv_def Let_def gcd_rates r input_def [symmetric] l
    using pos by (simp add: m)
  moreover have "length (int16_tobytes (map (\<lambda>v. word_of_int (v div 65536) :: int16) out))
          = 2 * (if fragment = [] then 0 else 3 * (length fragment div 2) - 2)"
    by (simp add: length_int16_tobytes n e li)
  ultimately show ?thesis by blast
qed

lemma ratecv_of_silence:
  "audioop_ratecv [0, 0, 0, 0] SOURCE_SAMPLE_RATE_HZ TARGET_SAMPLE_RATE_HZ
     = Some (Inr ([0, 0, 0, 0, 0, 0, 0, 0], - 1, 0, 0))"
proof -
  have "ratecv_loop 1 3 (- 3) 0 0 [0, 0] [] = ratecv_loop 1 3 0 0 0 [0] []"
    by (simp add: ratecv_read)
  also have "\<dots> = ratecv_loop 1 3 (- 1) 0 0 [0] [0]"
    by (subst ratecv_write) (simp_all add: c_div_def)
  also have "\<dots> = ratecv_loop 1 3 2 0 0 [] [0]"
    by (simp add: ratecv_read)
  also have "\<dots> = ratecv_loop 1 3 1 0 0 [] [0, 0]"
    by (subst ratecv_write) (simp_all add: c_div_def)
  also have "\<dots> = ratecv_loop 1 3 0 0 0 [] [0, 0, 0]"
    by (subst ratecv_write) (simp_all add: c_div_def)
  also have "\<dots> = ratecv_loop 1 3 (- 1) 0 0 [] [0, 0, 0, 0]"
    by (subst ratecv_write) (simp_all add: c_div_def)
  also have "\<dots> = Some ([0, 0, 0, 0], - 1, 0, 0)"
    by (simp add: ratecv_done)
  finally have l: "ratecv_loop 1 3 (- 3) 0 0 [0, 0] [] = Some ([0, 0, 0, 0], - 1, 0, 0)" .
  have r: "SOURCE_SAMPLE_RATE_HZ div 8000 = 1" "TARGET_SAMPLE_RATE_HZ div 8000 = 3"
    by (simp_all add: SOURCE_SAMPLE_RATE_HZ_def TARGET_SAMPLE_RATE_HZ_def)
  have pos: "\<not> (SOURCE_SAMPLE_RATE_HZ \<le> 0 \<or> TARGET_SAMPLE_RATE_HZ \<le> 0)"
    by (simp add: SOURCE_SAMPLE_RATE_HZ_def TARGET_SAMPLE_RATE_HZ_def)
  have i: "map (\<lambda>w. sint w * 65536) (int16_of_bytes [0, 0, 0, 0]) = [0, 0]"
    by simp
  show ?thesis
    unfolding audioop_ratecv_def Let_def gcd_rates r i l
    using pos by (simp add: int16_tobytes_def)
qed

text \<open>
  Claim C7 as stated fails on the length: two mu-law bytes give 4 samples at 24000 Hz, which
  is not within one sample of \<open>3 * 2\<close>.
\<close>

theorem C7_length_counterexample:
  "b64decode ''//8='' = Inr [255, 255] \<and> even (length [255, 255 :: byte])
   \<and> mulaw_b64_to_pcm16 ''//8='' TARGET_SAMPLE_RATE_HZ = Some (Inr [0, 0, 0, 0, 0, 0, 0, 0])
   \<and> \<not> \<bar>int (length [0, 0, 0, 0, 0, 0, 0, 0 :: byte] div 2)
          - 3 * int (length [255, 255 :: byte])\<bar> \<le> 1"
proof -
  have t: "TARGET_SAMPLE_RATE_HZ \<noteq> 0" "TARGET_SAMPLE_RATE_HZ \<noteq> SOURCE_SAMPLE_RATE_HZ"
    by (simp_all add: SOURCE_SAMPLE_RATE_HZ_def TARGET_SAMPLE_RATE_HZ_def)
  have "mulaw_b64_to_pcm16 ''//8='' TARGET_SAMPLE_RATE_HZ = Some (Inr [0, 0, 0, 0, 0, 0, 0, 0])"
    using t by (simp add: mulaw_b64_to_pcm16_def b64decode_ff pcm_of_ff ratecv_of_silence)
  then show ?thesis by (simp add: b64decode_ff)
qed

text \<open>
  Claim C7, amended: for every input that base64-decodes without error to \<open>n\<close> mu-law bytes,
  \<open>mulaw_b64_to_pcm16\<close> at the 24000 Hz target returns without raising, and the returned PCM16
  buffer holds \<open>3 * n - 2\<close> samples when \<open>n \<ge> 1\<close> and none when \<open>n = 0\<close> (\<open>ratecv\<close> starts
  from no previous state, so the first input sample yields one output sample).
\<close>

theorem C7_decode_resample_length:
  assumes "b64decode s = Inr mulaw"
  shows "\<exists>pcm16. mulaw_b64_to_pcm16 s TARGET_SAMPLE_RATE_HZ = Some (Inr pcm16)
          \<and> length pcm16 = 2 * (if mulaw = [] then 0 else 3 * length mulaw - 2)"
proof -
  have ev: "even (length (audioop_ulaw2lin mulaw))"
    by (simp add: length_audioop_ulaw2lin)
  have ne: "audioop_ulaw2lin mulaw = [] \<longleftrightarrow> mulaw = []"
    using length_audioop_ulaw2lin [of mulaw] by (cases mulaw) auto
  have t: "TARGET_SAMPLE_RATE_HZ \<noteq> 0" "TARGET_SAMPLE_RATE_HZ \<noteq> SOURCE_SAMPLE_RATE_HZ"
    by (simp_all add: SOURCE_SAMPLE_RATE_HZ_def TARGET_SAMPLE_RATE_HZ_def)
  from audioop_ratecv_triple [OF ev] obtain out st where
    "audioop_ratecv (audioop_ulaw2lin mulaw) SOURCE_SAMPLE_RATE_HZ TARGET_SAMPLE_RATE_HZ
       = Some (Inr (out, st))"
    "length out = 2 * (if audioop_ulaw2lin mulaw = [] then 0
                       else 3 * (length (audioop_ulaw2lin mulaw) div 2) - 2)"
    by blast
  then show ?thesis
    using assms t by (simp add: mulaw_b64_to_pcm16_def Let_def ne length_audioop_ulaw2lin)
qed

theorem C7_decode_resample_length_witness:
  "b64decode ''//8='' = Inr [255, 255]
   \<and> (\<exists>pcm16. mulaw_b64_to_pcm16 ''//8='' TARGET_SAMPLE_RATE_HZ = Some (Inr pcm16)
         \<and> length pcm16 = 8)"
  using C7_decode_resample_length [OF b64decode_ff] b64decode_ff by simp

end
